theory Spec2Isabelle
  imports Main "HOL-Library.Sublist" "HOL-Library.Word"
begin

section \<open>The Cloudflare Logpush receiver (src/log-receiver/app.py)\<close>

text \<open>
  The receiver answers a POST of log records with the view \<open>receive_logs\<close>, which
  forwards them with \<open>push_to_loki\<close>. Both are embedded here as HOL functions. What
  they do beyond computing a result is made explicit: every \<open>logger\<close> call and every
  \<open>requests.post\<close> is an \<open>event\<close> of the trace the function returns, and every
  exception is the \<open>Inl\<close> of a sum type. The Python library functions they call
  (gzip, the UTF-8 codec, json, datetime, time, requests) are not part of the repository:
  they are the fields of the record \<open>env\<close>, and the theorems hold for all of them.
  Only the theorem on the timestamp asks more: that \<open>datetime\<close> and the floats be as
  they are modelled further down.
\<close>

subsection \<open>Python values\<close>

type_synonym bytes = "8 word list"

text \<open>
  A value produced by \<open>json.loads\<close>. A Python float is carried as the bit pattern of
  its IEEE double, a dict as the list of its items in insertion order.
\<close>

datatype json =
    JNull
  | JBool bool
  | JInt int
  | JFloat "64 word"
  | JStr string
  | JArr "json list"
  | JObj "(string \<times> json) list"

text \<open>
  The exceptions that occur. Those of the libraries carry the library's detail; those
  raised by an operation of the language carry the operand. \<open>HTTPError\<close> is the
  subclass of \<open>RequestException\<close> that \<open>raise_for_status\<close> raises, with the status.
\<close>

datatype pyexc =
    BadGzipFile string
  | UnicodeDecodeError string
  | JSONDecodeError string
  | RequestException string
  | HTTPError nat
  | TypeError json
  | AttributeError json
  | KeyError string
  | OtherException string

fun is_RequestException :: "pyexc \<Rightarrow> bool" where
  "is_RequestException (RequestException _) = True"
| "is_RequestException (HTTPError _) = True"
| "is_RequestException _ = False"

subsection \<open>Strings\<close>

text \<open>
  A text is a list of characters; those of the model are the characters below 256.
\<close>

definition dq :: char where
  "dq = CHR 0x22"

text \<open>\<open>str.isspace\<close> on the characters below 256.\<close>

definition py_isspace :: "char \<Rightarrow> bool" where
  "py_isspace c = ((of_char c :: nat) \<in> {9, 10, 11, 12, 13, 28, 29, 30, 31, 32, 133, 160})"

definition newline :: char where
  "newline = CHR 0x0A"

text \<open>\<open>s.strip()\<close>\<close>

definition lstrip :: "string \<Rightarrow> string" where
  "lstrip s = dropWhile py_isspace s"

definition rstrip :: "string \<Rightarrow> string" where
  "rstrip s = rev (dropWhile py_isspace (rev s))"

definition strip :: "string \<Rightarrow> string" where
  "strip s = lstrip (rstrip s)"

text \<open>\<open>s.split('\n')\<close>: the result always has at least one element.\<close>

fun split_nl :: "string \<Rightarrow> string list" where
  "split_nl [] = [[]]"
| "split_nl (c # cs) =
     (if c = newline then [] # split_nl cs
      else (case split_nl cs of [] \<Rightarrow> [[c]] | l # ls \<Rightarrow> (c # l) # ls))"

text \<open>\<open>needle in hay\<close> on two strings.\<close>

fun str_contains :: "string \<Rightarrow> string \<Rightarrow> bool" where
  "str_contains needle [] = (needle = [])"
| "str_contains needle (c # cs) = (prefix needle (c # cs) \<or> str_contains needle cs)"

text \<open>\<open>s.replace('Z', '+00:00')\<close>\<close>

definition replace_Z :: "string \<Rightarrow> string" where
  "replace_Z s = concat (map (\<lambda>c. if c = CHR ''Z'' then ''+00:00'' else [c]) s)"

text \<open>\<open>str(n)\<close> on an int.\<close>

definition digit_char :: "nat \<Rightarrow> char" where
  "digit_char d = ''0123456789'' ! d"

fun str_nat :: "nat \<Rightarrow> string" where
  "str_nat n = (if n < 10 then [digit_char n] else str_nat (n div 10) @ [digit_char (n mod 10)])"

declare str_nat.simps [simp del]

definition str_int :: "int \<Rightarrow> string" where
  "str_int i = (if i < 0 then CHR ''-'' # str_nat (nat (- i)) else str_nat (nat i))"

subsection \<open>Operations of the language on a parsed value\<close>

text \<open>Truthiness, as \<open>if timestamp:\<close> tests it.\<close>

fun truthy :: "json \<Rightarrow> bool" where
  "truthy JNull = False"
| "truthy (JBool b) = b"
| "truthy (JInt i) = (i \<noteq> 0)"
| "truthy (JFloat w) = (push_bit 1 w \<noteq> 0)"
| "truthy (JStr s) = (s \<noteq> [])"
| "truthy (JArr xs) = (xs \<noteq> [])"
| "truthy (JObj kvs) = (kvs \<noteq> [])"

text \<open>\<open>key in v\<close> for a string key: only a dict, a str and a list support it.\<close>

fun py_in :: "string \<Rightarrow> json \<Rightarrow> pyexc + bool" where
  "py_in k (JObj kvs) = Inr (k \<in> set (map fst kvs))"
| "py_in k (JStr s) = Inr (str_contains k s)"
| "py_in k (JArr xs) = Inr (JStr k \<in> set xs)"
| "py_in k v = Inl (TypeError v)"

text \<open>\<open>v[key]\<close> for a string key: a str and a list want integer indices.\<close>

fun py_getitem :: "json \<Rightarrow> string \<Rightarrow> pyexc + json" where
  "py_getitem (JObj kvs) k = (case map_of kvs k of None \<Rightarrow> Inl (KeyError k) | Some v \<Rightarrow> Inr v)"
| "py_getitem v k = Inl (TypeError v)"

text \<open>\<open>v.get(key)\<close>: only a dict has the method; a missing key gives \<open>None\<close>.\<close>

fun py_get :: "json \<Rightarrow> string \<Rightarrow> pyexc + json option" where
  "py_get (JObj kvs) k = Inr (map_of kvs k)"
| "py_get v k = Inl (AttributeError v)"

subsection \<open>The wire format, the trace and the environment\<close>

record stream =
  stream_labels :: "(string \<times> json) list"
  stream_values :: "(string \<times> string) list"

text \<open>The payload \<open>{"streams": [...]}\<close> is the list of its streams.\<close>

type_synonym payload = "stream list"

datatype level = INFO | WARNING | ERROR

datatype event =
    Log level string
  | BackendPost string payload

fun is_post :: "event \<Rightarrow> bool" where
  "is_post (BackendPost _ _) = True"
| "is_post (Log _ _) = False"

record config =
  LOKI_URL :: string
  AUTH_TOKEN :: string

text \<open>
  The library and the world, as the view sees them:
  \<^item> \<open>gzip_decompress\<close> is \<open>gzip.decompress\<close>, \<open>utf8_decode\<close> is \<open>bytes.decode('utf-8')\<close>,
    \<open>json_loads\<close> and \<open>json_dumps\<close> are those of \<open>json\<close>;
  \<^item> \<open>iso_ns s\<close> is \<open>int(datetime.fromisoformat(s).timestamp() * 1e9)\<close>, \<open>None\<close> when
    that raises;
  \<^item> \<open>clock_ns i\<close> is \<open>int(time.time() * 1e9)\<close> as read while record \<open>i\<close> of the batch
    is converted (each record reads the clock at most once);
  \<^item> \<open>http_post url p\<close> is \<open>requests.post(url, json=p, ...)\<close>: the status of the
    response, or the exception raised;
  \<^item> \<open>exc_str\<close> is \<open>str(e)\<close>.
\<close>

record env =
  gzip_decompress :: "bytes \<Rightarrow> pyexc + bytes"
  utf8_decode :: "bytes \<Rightarrow> pyexc + string"
  json_loads :: "string \<Rightarrow> pyexc + json"
  json_dumps :: "json \<Rightarrow> string"
  iso_ns :: "string \<Rightarrow> int option"
  clock_ns :: "nat \<Rightarrow> int"
  http_post :: "string \<Rightarrow> payload \<Rightarrow> pyexc + nat"
  exc_str :: "pyexc \<Rightarrow> string"

record request =
  req_method :: string
  req_headers :: "string \<Rightarrow> string option"
  req_args :: "string \<Rightarrow> string option"
  req_data :: bytes
  remote_addr :: string

text \<open>\<open>d.get(key, default)\<close>\<close>

definition get_default :: "(string \<Rightarrow> string option) \<Rightarrow> string \<Rightarrow> string \<Rightarrow> string" where
  "get_default d k dflt = (case d k of None \<Rightarrow> dflt | Some v \<Rightarrow> v)"

text \<open>A response is what \<open>jsonify\<close> is given, with the status.\<close>

type_synonym response = "json \<times> nat"

subsection \<open>push\_to\_loki\<close>

text \<open>
  The timestamp of one record (lines 43 to 56): \<open>timestamp\<close> is what \<open>log.get\<close>
  returned. The bare \<open>except\<close> turns every failure of the conversion into a reading of
  the clock.
\<close>

definition now_str :: "env \<Rightarrow> nat \<Rightarrow> string" where
  "now_str e i = str_int (clock_ns e i)"

definition ts_ns :: "env \<Rightarrow> nat \<Rightarrow> json option \<Rightarrow> string" where
  "ts_ns e i timestamp =
     (case timestamp of
        None \<Rightarrow> now_str e i
      | Some t \<Rightarrow>
          if truthy t then
            (case t of
               JStr s \<Rightarrow> (case iso_ns e (replace_Z s) of
                            Some n \<Rightarrow> str_int n
                          | None \<Rightarrow> now_str e i)
             | _ \<Rightarrow> now_str e i)
          else now_str e i)"

text \<open>The loop of lines 41 to 58; \<open>i\<close> is the index of the record at the head.\<close>

fun build_values :: "env \<Rightarrow> nat \<Rightarrow> json list \<Rightarrow> pyexc + (string \<times> string) list" where
  "build_values e i [] = Inr []"
| "build_values e i (log # logs) =
     (case py_get log ''EdgeStartTimestamp'' of
        Inl x \<Rightarrow> Inl x
      | Inr timestamp \<Rightarrow>
          (case build_values e (Suc i) logs of
             Inl x \<Rightarrow> Inl x
           | Inr vs \<Rightarrow> Inr ((ts_ns e i timestamp, json_dumps e log) # vs)))"

definition default_labels :: "(string \<times> json) list" where
  "default_labels = [(''job'', JStr ''cloudflare''), (''source'', JStr ''logpush'')]"

definition push_url :: "config \<Rightarrow> string" where
  "push_url cfg = LOKI_URL cfg @ ''/loki/api/v1/push''"

text \<open>\<open>response.raise_for_status()\<close> raises \<open>HTTPError\<close> on a 4xx or 5xx status.\<close>

definition raise_for_status :: "nat \<Rightarrow> pyexc option" where
  "raise_for_status code = (if 400 \<le> code \<and> code < 600 then Some (HTTPError code) else None)"

definition push_failed :: "env \<Rightarrow> pyexc \<Rightarrow> event" where
  "push_failed e x = Log ERROR (''Failed to push to Loki: '' @ exc_str e x)"

text \<open>
  The \<open>try\<close> of lines 67 to 78: a \<open>RequestException\<close> is logged and gives \<open>False\<close>, any
  other exception leaves the function.
\<close>

definition post_payload :: "config \<Rightarrow> env \<Rightarrow> payload \<Rightarrow> (pyexc + bool) \<times> event list" where
  "post_payload cfg e p =
     (case http_post e (push_url cfg) p of
        Inl x \<Rightarrow>
          if is_RequestException x then (Inr False, [BackendPost (push_url cfg) p, push_failed e x])
          else (Inl x, [BackendPost (push_url cfg) p])
      | Inr code \<Rightarrow>
          (case raise_for_status code of
             Some x \<Rightarrow> (Inr False, [BackendPost (push_url cfg) p, push_failed e x])
           | None \<Rightarrow> (Inr True, [BackendPost (push_url cfg) p])))"

definition push_to_loki ::
  "config \<Rightarrow> env \<Rightarrow> json list \<Rightarrow> (string \<times> json) list option \<Rightarrow> (pyexc + bool) \<times> event list" where
  "push_to_loki cfg e logs labels_arg =
     (if logs = [] then (Inr True, [])
      else
        let labels = (case labels_arg of None \<Rightarrow> default_labels | Some l \<Rightarrow> l) in
        (case build_values e 0 logs of
           Inl x \<Rightarrow> (Inl x, [])
         | Inr vs \<Rightarrow> post_payload cfg e [\<lparr>stream_labels = labels, stream_values = vs\<rparr>]))"

subsection \<open>receive\_logs\<close>

text \<open>
  Lines 120 to 129. Both handlers decode the raw bytes; the second one logs first.
  An exception of the raw decode leaves the block.
\<close>

definition decode_raw :: "env \<Rightarrow> bytes \<Rightarrow> pyexc \<Rightarrow> (pyexc + string) \<times> event list" where
  "decode_raw e data x =
     (case x of
        BadGzipFile _ \<Rightarrow> (utf8_decode e data, [])
      | _ \<Rightarrow> (utf8_decode e data,
               [Log WARNING (''Decompression failed, trying raw: '' @ exc_str e x)]))"

definition decode_body :: "env \<Rightarrow> bytes \<Rightarrow> (pyexc + string) \<times> event list" where
  "decode_body e data =
     (case gzip_decompress e data of
        Inl x \<Rightarrow> decode_raw e data x
      | Inr decompressed \<Rightarrow>
          (case utf8_decode e decompressed of
             Inl x \<Rightarrow> decode_raw e data x
           | Inr content \<Rightarrow> (Inr content, [])))"

definition probe :: string where
  "probe = ''{'' @ [dq] @ ''content'' @ [dq] @ '':'' @ [dq] @ ''tests'' @ [dq] @ ''}''"

text \<open>
  The loop of lines 138 to 147 over the lines still to read. Only \<open>JSONDecodeError\<close>
  is caught.
\<close>

fun parse_lines :: "env \<Rightarrow> string list \<Rightarrow> (pyexc + json list) \<times> event list" where
  "parse_lines e [] = (Inr [], [])"
| "parse_lines e (l # ls) =
     (let line = strip l in
      if line = [] then parse_lines e ls
      else
        (case json_loads e line of
           Inr log_entry \<Rightarrow>
             (case parse_lines e ls of
                (Inr logs, tr) \<Rightarrow> (Inr (log_entry # logs), tr)
              | (Inl x, tr) \<Rightarrow> (Inl x, tr))
         | Inl (JSONDecodeError m) \<Rightarrow>
             (case parse_lines e ls of
                (r, tr) \<Rightarrow>
                  (r, Log WARNING (''Failed to parse log line: '' @ exc_str e (JSONDecodeError m)) # tr))
         | Inl x \<Rightarrow> (Inl x, [])))"

definition parse_ndjson :: "env \<Rightarrow> string \<Rightarrow> (pyexc + json list) \<times> event list" where
  "parse_ndjson e content = parse_lines e (split_nl (strip content))"

text \<open>Lines 153 to 162.\<close>

definition derive_labels :: "json \<Rightarrow> pyexc + (string \<times> json) list" where
  "derive_labels sample_log =
     (case py_in ''ClientRequestHost'' sample_log of
        Inl x \<Rightarrow> Inl x
      | Inr False \<Rightarrow> Inr default_labels
      | Inr True \<Rightarrow>
          (case py_getitem sample_log ''ClientRequestHost'' of
             Inl x \<Rightarrow> Inl x
           | Inr v \<Rightarrow> Inr (default_labels @ [(''host'', v)])))"

definition ok_processed :: "nat \<Rightarrow> response" where
  "ok_processed n = (JObj [(''status'', JStr ''ok''), (''processed'', JInt (int n))], 200)"

definition error_response :: "string \<Rightarrow> nat \<Rightarrow> response" where
  "error_response msg code = (JObj [(''error'', JStr msg)], code)"

definition probe_ack :: response where
  "probe_ack = (JObj [(''text'', JStr ''Success''), (''code'', JInt 0)], 200)"

text \<open>Lines 149 to 171: what is done with the parsed records.\<close>

definition forward_logs :: "config \<Rightarrow> env \<Rightarrow> json list \<Rightarrow> (pyexc + response) \<times> event list" where
  "forward_logs cfg e logs =
     (case logs of
        [] \<Rightarrow> (Inr (ok_processed 0), [Log INFO ''No valid logs to process''])
      | sample_log # _ \<Rightarrow>
          (case derive_labels sample_log of
             Inl x \<Rightarrow> (Inl x, [])
           | Inr labels \<Rightarrow>
               (case push_to_loki cfg e logs (Some labels) of
                  (Inl x, tr) \<Rightarrow> (Inl x, tr)
                | (Inr True, tr) \<Rightarrow>
                    (Inr (ok_processed (length logs)),
                     tr @ [Log INFO (''Successfully processed '' @ str_nat (length logs) @ '' log entries'')])
                | (Inr False, tr) \<Rightarrow> (Inr (error_response ''Failed to push to Loki'' 500), tr))))"

text \<open>Lines 131 to 171: what is done with the decoded text.\<close>

definition process_content :: "config \<Rightarrow> env \<Rightarrow> string \<Rightarrow> (pyexc + response) \<times> event list" where
  "process_content cfg e content =
     (if str_contains probe content
      then (Inr probe_ack, [Log INFO ''Received Cloudflare validation request''])
      else
        (case parse_ndjson e content of
           (Inl x, tr) \<Rightarrow> (Inl x, tr)
         | (Inr logs, tr) \<Rightarrow>
             (case forward_logs cfg e logs of (r, tr') \<Rightarrow> (r, tr @ tr'))))"

text \<open>The body of the outer \<open>try\<close>, lines 113 to 171.\<close>

definition process_body :: "config \<Rightarrow> env \<Rightarrow> bytes \<Rightarrow> (pyexc + response) \<times> event list" where
  "process_body cfg e data =
     (if data = [] then (Inr (error_response ''No data received'' 400), [Log WARNING ''Received empty request''])
      else
        (case decode_body e data of
           (Inl x, tr) \<Rightarrow> (Inl x, tr)
         | (Inr content, tr) \<Rightarrow>
             (case process_content cfg e content of (r, tr') \<Rightarrow> (r, tr @ tr'))))"

text \<open>The outer \<open>except Exception\<close>, lines 173 to 175.\<close>

definition catch_all :: "env \<Rightarrow> (pyexc + response) \<times> event list \<Rightarrow> response \<times> event list" where
  "catch_all e r =
     (case r of
        (Inr resp, tr) \<Rightarrow> (resp, tr)
      | (Inl x, tr) \<Rightarrow>
          (error_response (exc_str e x) 500, tr @ [Log ERROR (''Error processing logs: '' @ exc_str e x)]))"

text \<open>The condition of lines 106 to 108 under which the request is turned away.\<close>

definition unauthorized :: "config \<Rightarrow> request \<Rightarrow> bool" where
  "unauthorized cfg req =
     (AUTH_TOKEN cfg \<noteq> ''changeme'' \<and>
      get_default (req_headers req) ''Authorization'' [] \<noteq> ''Bearer '' @ AUTH_TOKEN cfg \<and>
      \<not> str_contains (AUTH_TOKEN cfg) (get_default (req_args req) ''token'' []))"

definition ready_response :: response where
  "ready_response =
     (JObj [(''status'', JStr ''ok''), (''message'', JStr ''Cloudflare Logpush receiver ready'')], 200)"

definition receive_logs :: "config \<Rightarrow> env \<Rightarrow> request \<Rightarrow> response \<times> event list" where
  "receive_logs cfg e req =
     (if req_method req = ''GET'' then (ready_response, [])
      else if unauthorized cfg req
      then (error_response ''Unauthorized'' 401,
            [Log WARNING (''Unauthorized request from '' @ remote_addr req)])
      else catch_all e (process_body cfg e (req_data req)))"

section \<open>datetime and the float product, as the timestamp uses them\<close>

text \<open>
  A model of the library for the strings of the form
  \<open>YYYY-MM-DDTHH:MM:SS\<close>, an optional fraction of three or six digits, and a numeric
  offset \<open>+HH:MM\<close> or \<open>-HH:MM\<close>, which every version of
  \<open>datetime.fromisoformat\<close> reads alike. On other strings the model is silent and
  \<open>iso_ns\<close> stays a parameter.
\<close>

definition is_digit :: "char \<Rightarrow> bool" where
  "is_digit c = (48 \<le> (of_char c :: nat) \<and> (of_char c :: nat) \<le> 57)"

definition digits_val :: "string \<Rightarrow> nat" where
  "digits_val s = foldl (\<lambda>a c. 10 * a + (of_char c - 48)) 0 s"

text \<open>A field of exactly \<open>n\<close> digits.\<close>

definition number :: "nat \<Rightarrow> string \<Rightarrow> nat option" where
  "number n s = (if length s = n \<and> list_all is_digit s then Some (digits_val s) else None)"

record stamp =
  st_year :: nat
  st_month :: nat
  st_day :: nat
  st_hour :: nat
  st_minute :: nat
  st_second :: nat
  st_micro :: nat
  off_west :: bool
  off_hour :: nat
  off_minute :: nat

text \<open>The fraction of a second, in microseconds, and what follows it.\<close>

definition parse_fraction :: "string \<Rightarrow> (nat \<times> string) option" where
  "parse_fraction r =
     (if take 1 r = ''.'' then
        (case number 6 (take 6 (drop 1 r)) of
           Some us \<Rightarrow> Some (us, drop 7 r)
         | None \<Rightarrow>
             (case number 3 (take 3 (drop 1 r)) of
                Some ms \<Rightarrow> Some (1000 * ms, drop 4 r)
              | None \<Rightarrow> None))
      else Some (0, r))"

definition parse_stamp :: "string \<Rightarrow> stamp option" where
  "parse_stamp s =
     (case those [number 4 (take 4 s), number 2 (take 2 (drop 5 s)), number 2 (take 2 (drop 8 s)),
                  number 2 (take 2 (drop 11 s)), number 2 (take 2 (drop 14 s)),
                  number 2 (take 2 (drop 17 s))] of
        Some [y, mo, d, h, mi, sec] \<Rightarrow>
          (case parse_fraction (drop 19 s) of
             Some (us, off) \<Rightarrow>
               (case those [number 2 (take 2 (drop 1 off)), number 2 (drop 4 off)] of
                  Some [oh, om] \<Rightarrow>
                    if take 1 (drop 4 s) = ''-'' \<and> take 1 (drop 7 s) = ''-'' \<and>
                       take 1 (drop 10 s) = ''T'' \<and> take 1 (drop 13 s) = '':'' \<and>
                       take 1 (drop 16 s) = '':'' \<and>
                       (take 1 off = ''+'' \<or> take 1 off = ''-'') \<and> take 1 (drop 3 off) = '':''
                    then Some \<lparr>st_year = y, st_month = mo, st_day = d, st_hour = h,
                                st_minute = mi, st_second = sec, st_micro = us,
                                off_west = (take 1 off = ''-''), off_hour = oh, off_minute = om\<rparr>
                    else None
                | _ \<Rightarrow> None)
           | None \<Rightarrow> None)
      | _ \<Rightarrow> None)"

definition is_leap :: "nat \<Rightarrow> bool" where
  "is_leap y = (y mod 4 = 0 \<and> (y mod 100 \<noteq> 0 \<or> y mod 400 = 0))"

definition days_in_month :: "nat \<Rightarrow> nat \<Rightarrow> nat" where
  "days_in_month y m =
     (if m = 2 then (if is_leap y then 29 else 28)
      else if m = 4 \<or> m = 6 \<or> m = 9 \<or> m = 11 then 30 else 31)"

definition valid_stamp :: "stamp \<Rightarrow> bool" where
  "valid_stamp f =
     (1 \<le> st_year f \<and> 1 \<le> st_month f \<and> st_month f \<le> 12 \<and>
      1 \<le> st_day f \<and> st_day f \<le> days_in_month (st_year f) (st_month f) \<and>
      st_hour f < 24 \<and> st_minute f < 60 \<and> st_second f < 60 \<and>
      off_hour f < 24 \<and> off_minute f < 60)"

text \<open>The proleptic Gregorian ordinal of a date; 1970-01-01 has the ordinal 719163.\<close>

definition ordinal :: "nat \<Rightarrow> nat \<Rightarrow> nat \<Rightarrow> int" where
  "ordinal y m d =
     (let p = int y - 1 in
      p * 365 + p div 4 - p div 100 + p div 400 +
      int (sum_list (map (days_in_month y) [1..<m])) + int d)"

definition offset_seconds :: "stamp \<Rightarrow> int" where
  "offset_seconds f =
     (let n = int (off_hour f) * 3600 + int (off_minute f) * 60 in if off_west f then - n else n)"

definition epoch_seconds :: "stamp \<Rightarrow> int" where
  "epoch_seconds f =
     (ordinal (st_year f) (st_month f) (st_day f) - 719163) * 86400 +
     int (st_hour f) * 3600 + int (st_minute f) * 60 + int (st_second f) - offset_seconds f"

definition epoch_micros :: "stamp \<Rightarrow> int" where
  "epoch_micros f = epoch_seconds f * 1000000 + int (st_micro f)"

text \<open>
  An IEEE double that is not negative, as the fraction of its value. \<open>to_double a b\<close> is
  the double nearest to \<open>a / b\<close>, ties to even: the quotient is scaled into 53 bits and
  rounded. (The exponent range of a double is not reached by a timestamp.)
\<close>

fun bits :: "nat \<Rightarrow> nat" where
  "bits n = (if n = 0 then 0 else Suc (bits (n div 2)))"

declare bits.simps [simp del]

text \<open>The integer \<open>k\<close> with \<open>2 ^ k \<le> a / b < 2 ^ (k + 1)\<close>.\<close>

definition floor_log2 :: "nat \<Rightarrow> nat \<Rightarrow> int" where
  "floor_log2 a b =
     (let k = int (bits a) - int (bits b) in
      if (if 0 \<le> k then b * 2 ^ nat k \<le> a else b \<le> a * 2 ^ nat (- k)) then k else k - 1)"

definition round_half_even :: "nat \<Rightarrow> nat \<Rightarrow> nat" where
  "round_half_even num den =
     (let q = num div den; r = num mod den in
      if 2 * r < den then q else if den < 2 * r then q + 1 else if even q then q else q + 1)"

definition to_double :: "nat \<Rightarrow> nat \<Rightarrow> nat \<times> nat" where
  "to_double a b =
     (if a = 0 then (0, 1)
      else
        let e = floor_log2 a b - 52 in
        if 0 \<le> e then (round_half_even a (b * 2 ^ nat e) * 2 ^ nat e, 1)
        else (round_half_even (a * 2 ^ nat (- e)) b, 2 ^ nat (- e)))"

text \<open>
  \<open>int(dt.timestamp() * 1e9)\<close> for a datetime \<open>t\<close> microseconds after the epoch:
  \<open>timestamp()\<close> is the double nearest to \<open>t / 10 ** 6\<close>, its product with \<open>1e9\<close> is
  rounded again, and \<open>int\<close> truncates. Rounding is symmetric around zero.
\<close>

definition double_ns_nat :: "nat \<Rightarrow> nat" where
  "double_ns_nat t =
     (case to_double t 1000000 of
        (n1, d1) \<Rightarrow> (case to_double (n1 * 1000000000) d1 of (n2, d2) \<Rightarrow> n2 div d2))"

definition double_ns :: "int \<Rightarrow> int" where
  "double_ns t = (if t < 0 then - int (double_ns_nat (nat (- t))) else int (double_ns_nat (nat t)))"

text \<open>The library reads the strings of the model as the model does.\<close>

definition library_agrees :: "env \<Rightarrow> bool" where
  "library_agrees e =
     (\<forall>s f. parse_stamp s = Some f \<and> valid_stamp f \<longrightarrow> iso_ns e s = Some (double_ns (epoch_micros f)))"

section \<open>The words of the specification\<close>

text \<open>
  Definitions that follow the specification, not the code: the theorems compare the
  functions above with them.
\<close>

subsection \<open>The parser and the serialization\<close>

text \<open>
  The lines of a text that are left after trimming each one and skipping the blank
  ones, and the values of those that parse, in the order of the lines.
\<close>

definition nonblank :: "string list \<Rightarrow> string list" where
  "nonblank ls = filter (\<lambda>l. l \<noteq> []) (map strip ls)"

definition parsed_of :: "env \<Rightarrow> string list \<Rightarrow> json list" where
  "parsed_of e ls = concat (map (\<lambda>l. case json_loads e l of Inr v \<Rightarrow> [v] | Inl _ \<Rightarrow> []) ls)"

definition spec_parse :: "env \<Rightarrow> string \<Rightarrow> json list" where
  "spec_parse e text = parsed_of e (nonblank (split_nl text))"

text \<open>A line fails to parse: \<open>json.loads\<close> raises nothing but \<open>JSONDecodeError\<close> on it.\<close>

definition decode_errors_only :: "env \<Rightarrow> string \<Rightarrow> bool" where
  "decode_errors_only e l = (\<forall>x. json_loads e l = Inl x \<longrightarrow> (\<exists>m. x = JSONDecodeError m))"

text \<open>The serialization of a sequence of records: one line for each, in order.\<close>

definition ndjson :: "env \<Rightarrow> json list \<Rightarrow> string" where
  "ndjson e rs = concat (map (\<lambda>r. json_dumps e r @ [newline]) rs)"

text \<open>
  What the round trip needs of \<open>json\<close> on a record: \<open>loads\<close> inverts \<open>dumps\<close>, and
  the output of \<open>dumps\<close> is one line, not empty, with no white space around it.
\<close>

definition dumps_roundtrip :: "env \<Rightarrow> json \<Rightarrow> bool" where
  "dumps_roundtrip e r =
     (json_loads e (json_dumps e r) = Inr r \<and>
      newline \<notin> set (json_dumps e r) \<and>
      json_dumps e r \<noteq> [] \<and>
      \<not> py_isspace (hd (json_dumps e r)) \<and>
      \<not> py_isspace (last (json_dumps e r)))"

subsection \<open>The forwarded batch\<close>

fun is_object :: "json \<Rightarrow> bool" where
  "is_object (JObj _) = True"
| "is_object _ = False"

text \<open>A bare number, boolean or null: neither an object, nor a string, nor an array.\<close>

fun is_scalar :: "json \<Rightarrow> bool" where
  "is_scalar JNull = True"
| "is_scalar (JBool _) = True"
| "is_scalar (JInt _) = True"
| "is_scalar (JFloat _) = True"
| "is_scalar _ = False"

text \<open>The field of a record, when the record is an object that has it.\<close>

fun obj_field :: "json \<Rightarrow> string \<Rightarrow> json option" where
  "obj_field (JObj kvs) k = map_of kvs k"
| "obj_field _ k = None"

text \<open>
  The values array: the record at index \<open>j\<close> gives the pair of its timestamp string
  and its serialization.
\<close>

definition values_from :: "env \<Rightarrow> nat \<Rightarrow> json list \<Rightarrow> (string \<times> string) list" where
  "values_from e i logs =
     map (\<lambda>(j, log). (ts_ns e j (obj_field log ''EdgeStartTimestamp''), json_dumps e log))
       (enumerate i logs)"

text \<open>The label set: the fixed labels, and the host of the first record when it has one.\<close>

definition spec_labels :: "json list \<Rightarrow> (string \<times> json) list" where
  "spec_labels logs =
     (case logs of
        [] \<Rightarrow> default_labels
      | first # _ \<Rightarrow>
          (case obj_field first ''ClientRequestHost'' of
             None \<Rightarrow> default_labels
           | Some v \<Rightarrow> default_labels @ [(''host'', v)]))"

definition one_stream :: "env \<Rightarrow> (string \<times> json) list \<Rightarrow> json list \<Rightarrow> payload" where
  "one_stream e labels logs = [\<lparr>stream_labels = labels, stream_values = values_from e 0 logs\<rparr>]"

subsection \<open>Requests that reach the pipeline\<close>

text \<open>A POST that passes the check of the token and has a body.\<close>

definition reaches_decode :: "config \<Rightarrow> request \<Rightarrow> bool" where
  "reaches_decode cfg req =
     (req_method req = ''POST'' \<and> \<not> unauthorized cfg req \<and> req_data req \<noteq> [])"

text \<open>
  A POST that passes the check of the token, whose body decodes to a text without the
  probe, from which the loop of the parser collects \<open>logs\<close>.
\<close>

definition parses_to :: "config \<Rightarrow> env \<Rightarrow> request \<Rightarrow> json list \<Rightarrow> bool" where
  "parses_to cfg e req logs =
     (reaches_decode cfg req \<and>
      (\<exists>content. fst (decode_body e (req_data req)) = Inr content \<and>
         \<not> str_contains probe content \<and>
         fst (parse_ndjson e content) = Inr logs))"

section \<open>A sample configuration, environment and requests\<close>

text \<open>
  Concrete values at which the theorems are instantiated. The sample libraries are toys
  that behave like the real ones on the inputs used: the decoder accepts ASCII, the
  decompressor knows the two magic bytes followed by the stored data, and \<open>json\<close>
  knows a handful of lines.
\<close>

definition sample_cfg :: config where
  "sample_cfg = \<lparr>LOKI_URL = ''http://loki:3100'', AUTH_TOKEN = ''changeme''\<rparr>"

definition secured_cfg :: config where
  "secured_cfg = \<lparr>LOKI_URL = ''http://loki:3100'', AUTH_TOKEN = ''s3cret''\<rparr>"

definition ascii_decode :: "bytes \<Rightarrow> pyexc + string" where
  "ascii_decode b =
     (if list_all (\<lambda>w. w < 0x80) b then Inr (map (\<lambda>w. char_of (unat w)) b)
      else Inl (UnicodeDecodeError ''invalid start byte''))"

definition sample_gunzip :: "bytes \<Rightarrow> pyexc + bytes" where
  "sample_gunzip b =
     (if take 2 b = [0x1F, 0x8B] then Inr (drop 2 b)
      else Inl (BadGzipFile ''Not a gzipped file''))"

definition host_line :: string where
  "host_line =
     ''{'' @ [dq] @ ''ClientRequestHost'' @ [dq] @ '':'' @ [dq] @ ''a.example'' @ [dq] @ ''}''"

definition host_record :: json where
  "host_record = JObj [(''ClientRequestHost'', JStr ''a.example'')]"

definition stamped_line :: string where
  "stamped_line =
     ''{'' @ [dq] @ ''EdgeStartTimestamp'' @ [dq] @ '':'' @ [dq] @ ''2024-01-01T00:00:00Z'' @ [dq] @ ''}''"

definition stamped_record :: json where
  "stamped_record = JObj [(''EdgeStartTimestamp'', JStr ''2024-01-01T00:00:00Z'')]"

definition sample_loads :: "string \<Rightarrow> pyexc + json" where
  "sample_loads s =
     (if s = ''{}'' then Inr (JObj [])
      else if s = ''7'' then Inr (JInt 7)
      else if s = host_line then Inr host_record
      else if s = stamped_line then Inr stamped_record
      else Inl (JSONDecodeError ''Expecting value''))"

definition sample_dumps :: "json \<Rightarrow> string" where
  "sample_dumps v =
     (if v = JObj [] then ''{}''
      else if v = JInt 7 then ''7''
      else if v = host_record then host_line
      else if v = stamped_record then stamped_line
      else ''null'')"

definition sample_iso :: "string \<Rightarrow> int option" where
  "sample_iso s = (if s = ''2024-01-01T00:00:00+00:00'' then Some 1704067200000000000 else None)"

definition sample_clock :: "nat \<Rightarrow> int" where
  "sample_clock i = 1700000000000000000 + int i"

definition sample_post :: "string \<Rightarrow> payload \<Rightarrow> pyexc + nat" where
  "sample_post url p =
     (if url = ''http://loki:3100/loki/api/v1/push'' then Inr 204
      else Inl (RequestException ''connection refused''))"

fun sample_str :: "pyexc \<Rightarrow> string" where
  "sample_str (BadGzipFile m) = m"
| "sample_str (UnicodeDecodeError m) = m"
| "sample_str (JSONDecodeError m) = m"
| "sample_str (RequestException m) = m"
| "sample_str (HTTPError c) = ''HTTP error''"
| "sample_str (TypeError v) = ''argument is not iterable''"
| "sample_str (AttributeError v) = ''object has no attribute get''"
| "sample_str (KeyError k) = k"
| "sample_str (OtherException m) = m"

definition sample_env :: env where
  "sample_env =
     \<lparr>gzip_decompress = sample_gunzip, utf8_decode = ascii_decode,
      json_loads = sample_loads, json_dumps = sample_dumps,
      iso_ns = sample_iso, clock_ns = sample_clock,
      http_post = sample_post, exc_str = sample_str\<rparr>"

text \<open>A backend that answers every push with the status given.\<close>

definition answering :: "nat \<Rightarrow> env" where
  "answering code = sample_env\<lparr>http_post := (\<lambda>url p. Inr code)\<rparr>"

text \<open>A backend that cannot be reached.\<close>

definition unreachable :: env where
  "unreachable = sample_env\<lparr>http_post := (\<lambda>url p. Inl (RequestException ''connection refused''))\<rparr>"

definition messy_text :: string where
  "messy_text = '' 7 '' @ [newline] @ [newline] @ ''junk'' @ [newline] @ ''{}''"

definition junk_text :: string where
  "junk_text = ''  '' @ [newline] @ ''junk''"

definition sample_text :: string where
  "sample_text = ''{}'' @ [newline] @ ''7'' @ [newline]"

definition sample_plain :: bytes where
  "sample_plain = [0x7B, 0x7D, 0x0A, 0x37, 0x0A]"

definition sample_gz :: bytes where
  "sample_gz = [0x1F, 0x8B] @ sample_plain"

definition probe_bytes :: bytes where
  "probe_bytes = [0x7B, 0x22, 0x63, 0x6F, 0x6E, 0x74, 0x65, 0x6E, 0x74, 0x22, 0x3A,
     0x22, 0x74, 0x65, 0x73, 0x74, 0x73, 0x22, 0x7D]"

definition post_request :: "bytes \<Rightarrow> request" where
  "post_request d =
     \<lparr>req_method = ''POST'', req_headers = (\<lambda>_. None), req_args = (\<lambda>_. None),
      req_data = d, remote_addr = ''198.51.100.7''\<rparr>"

definition bearer_request :: "string \<Rightarrow> bytes \<Rightarrow> request" where
  "bearer_request tok d =
     \<lparr>req_method = ''POST'',
      req_headers = (\<lambda>k. if k = ''Authorization'' then Some (''Bearer '' @ tok) else None),
      req_args = (\<lambda>_. None), req_data = d, remote_addr = ''198.51.100.7''\<rparr>"

definition query_request :: "string \<Rightarrow> bytes \<Rightarrow> request" where
  "query_request tok d =
     \<lparr>req_method = ''POST'', req_headers = (\<lambda>_. None),
      req_args = (\<lambda>k. if k = ''token'' then Some tok else None),
      req_data = d, remote_addr = ''198.51.100.7''\<rparr>"

text \<open>An \<open>iso_ns\<close> that is the model where the model speaks, and fails elsewhere.\<close>

definition model_iso :: "string \<Rightarrow> int option" where
  "model_iso s =
     (case parse_stamp s of
        None \<Rightarrow> None
      | Some f \<Rightarrow> if valid_stamp f then Some (double_ns (epoch_micros f)) else None)"

definition float_env :: env where
  "float_env = sample_env\<lparr>iso_ns := model_iso\<rparr>"

text \<open>A record stamped with a microsecond.\<close>

definition micro_stamp :: stamp where
  "micro_stamp =
     \<lparr>st_year = 2024, st_month = 1, st_day = 1, st_hour = 0, st_minute = 0, st_second = 0,
      st_micro = 1, off_west = False, off_hour = 0, off_minute = 0\<rparr>"

definition micro_record :: json where
  "micro_record = JObj [(''EdgeStartTimestamp'', JStr ''2024-01-01T00:00:00.000001Z'')]"

text \<open>
  A \<open>json\<close> with the recursion limit of the interpreter: a line of 1100 opening brackets
  makes \<open>loads\<close> raise \<open>RecursionError\<close>, which is no \<open>JSONDecodeError\<close>.
\<close>

definition deep_line :: string where
  "deep_line = replicate 1100 CHR ''[''"

definition deep_text :: string where
  "deep_text = deep_line @ newline # ''{}''"

definition deep_loads :: "string \<Rightarrow> pyexc + json" where
  "deep_loads s =
     (if s = deep_line then Inl (OtherException ''maximum recursion depth exceeded'')
      else sample_loads s)"

definition deep_env :: env where
  "deep_env = sample_env\<lparr>json_loads := deep_loads\<rparr>"

section \<open>Properties\<close>

subsection \<open>Strings and lines\<close>

lemma isspace_newline: "py_isspace newline"
  by (simp add: py_isspace_def newline_def)

lemma split_nl_not_Nil: "split_nl s \<noteq> []"
  by (induction s) (auto split: list.splits)

lemma rstrip_snoc: "py_isspace c \<Longrightarrow> rstrip (l @ [c]) = rstrip l"
  by (simp add: rstrip_def)

lemma strip_snoc: "py_isspace c \<Longrightarrow> strip (l @ [c]) = strip l"
  by (simp add: strip_def rstrip_snoc)

lemma rstrip_Cons:
  "rstrip (c # l) =
     (if \<forall>x\<in>set l. py_isspace x then (if py_isspace c then [] else [c]) else c # rstrip l)"
  by (auto simp: rstrip_def dropWhile_append)

lemma rstrip_all_space: "\<forall>x\<in>set l. py_isspace x \<Longrightarrow> rstrip l = []"
  by (simp add: rstrip_def)

lemma strip_Cons: "py_isspace c \<Longrightarrow> strip (c # l) = strip l"
  by (simp add: strip_def rstrip_Cons rstrip_all_space lstrip_def)

lemma strip_Nil: "strip [] = []"
  by (simp add: strip_def lstrip_def rstrip_def)

lemma split_nl_snoc:
  "split_nl (s @ [c]) =
     (if c = newline then split_nl s @ [[]]
      else butlast (split_nl s) @ [last (split_nl s) @ [c]])"
proof (induction s)
  case Nil
  then show ?case by simp
next
  case (Cons a s)
  then show ?case
    using split_nl_not_Nil [of s] by (auto split: list.splits)
qed

lemma nonblank_lstrip: "nonblank (split_nl (lstrip s)) = nonblank (split_nl s)"
proof (induction s)
  case Nil
  then show ?case by (simp add: lstrip_def)
next
  case (Cons c s)
  show ?case
  proof (cases "py_isspace c")
    case False
    then show ?thesis by (simp add: lstrip_def)
  next
    case True
    then have l: "lstrip (c # s) = lstrip s" by (simp add: lstrip_def)
    obtain l0 rest where sp: "split_nl s = l0 # rest"
      using split_nl_not_Nil [of s] by (cases "split_nl s") auto
    have "nonblank (split_nl (c # s)) = nonblank (split_nl s)"
      using True sp by (simp add: nonblank_def strip_Nil strip_Cons)
    with Cons l show ?thesis by simp
  qed
qed

lemma nonblank_rstrip: "nonblank (split_nl (rstrip s)) = nonblank (split_nl s)"
proof (induction s rule: rev_induct)
  case Nil
  then show ?case by (simp add: rstrip_def)
next
  case (snoc c s)
  show ?case
  proof (cases "py_isspace c")
    case False
    then show ?thesis by (simp add: rstrip_def)
  next
    case True
    have ne: "split_nl s \<noteq> []" by (rule split_nl_not_Nil)
    have "nonblank (butlast (split_nl s) @ [last (split_nl s) @ [c]]) = nonblank (butlast (split_nl s) @ [last (split_nl s)])"
      using True by (simp add: nonblank_def strip_snoc)
    also have "\<dots> = nonblank (split_nl s)" using ne by simp
    finally have "nonblank (split_nl (s @ [c])) = nonblank (split_nl s)"
      using ne by (simp add: split_nl_snoc nonblank_def strip_Nil)
    with snoc True show ?thesis by (simp add: rstrip_snoc)
  qed
qed

lemma nonblank_strip: "nonblank (split_nl (strip s)) = nonblank (split_nl s)"
  by (simp add: strip_def nonblank_lstrip nonblank_rstrip)

lemma nonblank_Nil: "nonblank [] = []"
  by (simp add: nonblank_def)

lemma nonblank_Cons: "nonblank (l # ls) = (if strip l = [] then nonblank ls else strip l # nonblank ls)"
  by (simp add: nonblank_def)

lemma parsed_of_Nil: "parsed_of e [] = []"
  by (simp add: parsed_of_def)

lemma parsed_of_Cons:
  "parsed_of e (l # ls) = (case json_loads e l of Inr v \<Rightarrow> [v] | Inl _ \<Rightarrow> []) @ parsed_of e ls"
  by (simp add: parsed_of_def)

lemma parse_lines_blank: "strip l = [] \<Longrightarrow> parse_lines e (l # ls) = parse_lines e ls"
  by simp

lemma parse_lines_ok:
  "strip l \<noteq> [] \<Longrightarrow> json_loads e (strip l) = Inr v \<Longrightarrow>
   fst (parse_lines e (l # ls)) = (case fst (parse_lines e ls) of Inr vs \<Rightarrow> Inr (v # vs) | Inl x \<Rightarrow> Inl x)"
  by (cases "parse_lines e ls") (simp add: Let_def split: sum.splits)

lemma parse_lines_bad:
  "strip l \<noteq> [] \<Longrightarrow> json_loads e (strip l) = Inl (JSONDecodeError m) \<Longrightarrow>
   fst (parse_lines e (l # ls)) = fst (parse_lines e ls)"
  by (cases "parse_lines e ls") (simp add: Let_def)

lemma decode_errors_onlyD:
  "decode_errors_only e l \<Longrightarrow> json_loads e l = Inl x \<Longrightarrow> \<exists>m. json_loads e l = Inl (JSONDecodeError m)"
  by (auto simp: decode_errors_only_def)

lemma parse_lines_fst:
  "(\<forall>l\<in>set (nonblank ls). decode_errors_only e l) \<Longrightarrow>
   fst (parse_lines e ls) = Inr (parsed_of e (nonblank ls))"
proof (induction ls)
  case Nil
  show ?case by (simp add: parsed_of_Nil nonblank_Nil)
next
  case (Cons l ls)
  show ?case
  proof (cases "strip l = []")
    case True
    then have k: "nonblank (l # ls) = nonblank ls" by (simp add: nonblank_Cons)
    from Cons.prems have "\<forall>l\<in>set (nonblank ls). decode_errors_only e l"
      by (simp only: k)
    then have IH: "fst (parse_lines e ls) = Inr (parsed_of e (nonblank ls))"
      by (rule Cons.IH)
    from True have "parse_lines e (l # ls) = parse_lines e ls" by (rule parse_lines_blank)
    then show ?thesis using IH by (simp only: k)
  next
    case False
    then have k: "nonblank (l # ls) = strip l # nonblank ls" by (simp add: nonblank_Cons)
    from Cons.prems have hd: "decode_errors_only e (strip l)"
      and tl: "\<forall>l\<in>set (nonblank ls). decode_errors_only e l"
      by (simp_all add: k)
    from tl have IH: "fst (parse_lines e ls) = Inr (parsed_of e (nonblank ls))"
      by (rule Cons.IH)
    show ?thesis
    proof (cases "json_loads e (strip l)")
      case (Inr v)
      from parse_lines_ok [OF False Inr] IH
      have "fst (parse_lines e (l # ls)) = Inr (v # parsed_of e (nonblank ls))" by (simp only: sum.case)
      then show ?thesis using Inr by (simp only: k parsed_of_Cons sum.case append.simps)
    next
      case (Inl x)
      from decode_errors_onlyD [OF hd Inl]
      obtain m where m: "json_loads e (strip l) = Inl (JSONDecodeError m)" ..
      from parse_lines_bad [OF False m] IH
      have "fst (parse_lines e (l # ls)) = Inr (parsed_of e (nonblank ls))" by (simp only:)
      then show ?thesis using m by (simp only: k parsed_of_Cons sum.case append.simps)
    qed
  qed
qed

lemma parsed_of_all_fail:
  "\<forall>l\<in>set ls. \<exists>m. json_loads e l = Inl (JSONDecodeError m) \<Longrightarrow> parsed_of e ls = []"
  by (induction ls) (auto simp: parsed_of_Nil parsed_of_Cons)

lemma sample_loads_errors: "decode_errors_only sample_env l"
  by (simp add: decode_errors_only_def sample_env_def sample_loads_def)

lemma parse_ndjson_eq_spec:
  "\<forall>l\<in>set (nonblank (split_nl content)). decode_errors_only e l \<Longrightarrow>
   fst (parse_ndjson e content) = Inr (spec_parse e content)"
proof -
  assume "\<forall>l\<in>set (nonblank (split_nl content)). decode_errors_only e l"
  then have "\<forall>l\<in>set (nonblank (split_nl (strip content))). decode_errors_only e l"
    by (simp only: nonblank_strip)
  then have "fst (parse_lines e (split_nl (strip content))) =
      Inr (parsed_of e (nonblank (split_nl (strip content))))"
    by (rule parse_lines_fst)
  then show ?thesis
    by (simp only: parse_ndjson_def spec_parse_def nonblank_strip)
qed

subsection \<open>The record parser\<close>

text \<open>
  C3, as the code has it. On every decoded text whose lines fail in \<open>json.loads\<close> with nothing but
  \<open>JSONDecodeError\<close>, the parser of the view returns what the specification describes:
  the text is split at the newlines, each line is trimmed, the blank ones are skipped,
  each of the others is parsed on its own, those that fail are dropped, and the values
  of the others are returned in the order of the lines. When every line is blank or
  fails, the result is the empty list, not an error.
\<close>

theorem parse_ndjson_spec:
  "((\<forall>l\<in>set (nonblank (split_nl content)). decode_errors_only e l) \<longrightarrow>
      fst (parse_ndjson e content) = Inr (spec_parse e content)) \<and>
   ((\<forall>l\<in>set (nonblank (split_nl content)). \<exists>m. json_loads e l = Inl (JSONDecodeError m)) \<longrightarrow>
      fst (parse_ndjson e content) = Inr [])"
proof (intro conjI impI)
  assume "\<forall>l\<in>set (nonblank (split_nl content)). decode_errors_only e l"
  then show "fst (parse_ndjson e content) = Inr (spec_parse e content)"
    by (rule parse_ndjson_eq_spec)
next
  assume b: "\<forall>l\<in>set (nonblank (split_nl content)). \<exists>m. json_loads e l = Inl (JSONDecodeError m)"
  have d: "\<forall>l\<in>set (nonblank (split_nl content)). decode_errors_only e l"
  proof
    fix l
    assume "l \<in> set (nonblank (split_nl content))"
    with b obtain m where "json_loads e l = Inl (JSONDecodeError m)" by blast
    then show "decode_errors_only e l" by (simp add: decode_errors_only_def)
  qed
  from b have "parsed_of e (nonblank (split_nl content)) = []"
    by (rule parsed_of_all_fail)
  with parse_ndjson_eq_spec [OF d] show "fst (parse_ndjson e content) = Inr []"
    by (simp only: spec_parse_def)
qed

theorem parse_ndjson_spec_witness:
  "fst (parse_ndjson sample_env messy_text) = Inr [JInt 7, JObj []] \<and>
   fst (parse_ndjson sample_env junk_text) = Inr []"
proof -
  have l1: "nonblank (split_nl messy_text) = [''7'', ''junk'', ''{}'']"
    by (simp add: messy_text_def nonblank_def strip_def lstrip_def rstrip_def py_isspace_def newline_def)
  have l2: "nonblank (split_nl junk_text) = [''junk'']"
    by (simp add: junk_text_def nonblank_def strip_def lstrip_def rstrip_def py_isspace_def newline_def)
  have v1: "spec_parse sample_env messy_text = [JInt 7, JObj []]"
    by (simp only: spec_parse_def l1)
      (simp add: parsed_of_def sample_env_def sample_loads_def host_line_def stamped_line_def)
  have h1: "\<forall>l\<in>set (nonblank (split_nl messy_text)). decode_errors_only sample_env l"
    by (simp add: sample_loads_errors)
  have h2: "\<forall>l\<in>set (nonblank (split_nl junk_text)).
      \<exists>m. json_loads sample_env l = Inl (JSONDecodeError m)"
    by (simp only: l2) (simp add: sample_env_def sample_loads_def host_line_def stamped_line_def)
  from parse_ndjson_spec [of messy_text sample_env, THEN conjunct1, THEN mp, OF h1]
  have "fst (parse_ndjson sample_env messy_text) = Inr [JInt 7, JObj []]"
    by (simp only: v1)
  moreover from parse_ndjson_spec [of junk_text sample_env, THEN conjunct2, THEN mp, OF h2]
  have "fst (parse_ndjson sample_env junk_text) = Inr []" .
  ultimately show ?thesis by (rule conjI)
qed

subsection \<open>The pipeline, step by step\<close>

lemma str_contains_iff: "str_contains n h \<longleftrightarrow> (\<exists>p s. h = p @ n @ s)"
proof (induction h)
  case Nil
  then show ?case by auto
next
  case (Cons c cs)
  show ?case
  proof
    assume "str_contains n (c # cs)"
    then consider "prefix n (c # cs)" | "str_contains n cs" by auto
    then show "\<exists>p s. c # cs = p @ n @ s"
    proof cases
      case 1
      then obtain s where "c # cs = n @ s" by (auto simp: prefix_def)
      then have "c # cs = [] @ n @ s" by simp
      then show ?thesis by blast
    next
      case 2
      with Cons obtain p s where "cs = p @ n @ s" by auto
      then have "c # cs = (c # p) @ n @ s" by simp
      then show ?thesis by blast
    qed
  next
    assume "\<exists>p s. c # cs = p @ n @ s"
    then obtain p s where ps: "c # cs = p @ n @ s" by auto
    show "str_contains n (c # cs)"
    proof (cases p)
      case Nil
      with ps have "prefix n (c # cs)" by (auto simp: prefix_def)
      then show ?thesis by simp
    next
      case (Cons a p')
      with ps have "cs = p' @ n @ s" by simp
      with Cons.IH have "str_contains n cs" by blast
      then show ?thesis by simp
    qed
  qed
qed

lemma decode_raw_posts: "filter is_post (snd (decode_raw e d x)) = []"
  by (cases x) (simp_all add: decode_raw_def)

lemma decode_body_posts: "filter is_post (snd (decode_body e d)) = []"
  by (simp add: decode_body_def decode_raw_posts split: sum.splits)

lemma parse_lines_posts: "filter is_post (snd (parse_lines e ls)) = []"
proof (induction ls)
  case Nil
  show ?case by simp
next
  case (Cons l ls)
  obtain r tr where rest: "parse_lines e ls = (r, tr)" by (cases "parse_lines e ls") auto
  with Cons have tr: "filter is_post tr = []" by simp
  show ?case
  proof (cases "strip l = []")
    case True
    with Cons show ?thesis by simp
  next
    case False
    show ?thesis
    proof (cases "json_loads e (strip l)")
      case (Inr v)
      with False rest tr show ?thesis by (cases r) simp_all
    next
      case (Inl x)
      with False rest tr show ?thesis by (cases x) simp_all
    qed
  qed
qed

lemma parse_ndjson_posts: "filter is_post (snd (parse_ndjson e content)) = []"
  by (simp only: parse_ndjson_def parse_lines_posts)

lemma catch_all_posts: "filter is_post (snd (catch_all e r)) = filter is_post (snd r)"
  by (cases r) (simp add: catch_all_def split: sum.splits)

lemma catch_all_Inr: "catch_all e (Inr resp, tr) = (resp, tr)"
  by (simp add: catch_all_def)

lemma catch_all_Inl:
  "catch_all e (Inl x, tr) =
     (error_response (exc_str e x) 500, tr @ [Log ERROR (''Error processing logs: '' @ exc_str e x)])"
  by (simp add: catch_all_def)

lemma receive_logs_reaches:
  "reaches_decode cfg req \<Longrightarrow> receive_logs cfg e req = catch_all e (process_body cfg e (req_data req))"
  by (simp add: reaches_decode_def receive_logs_def)

lemma process_body_raises:
  "d \<noteq> [] \<Longrightarrow> fst (decode_body e d) = Inl x \<Longrightarrow>
   process_body cfg e d = (Inl x, snd (decode_body e d))"
  by (cases "decode_body e d") (simp add: process_body_def)

lemma process_body_decoded:
  "d \<noteq> [] \<Longrightarrow> fst (decode_body e d) = Inr content \<Longrightarrow>
   process_body cfg e d =
     (fst (process_content cfg e content), snd (decode_body e d) @ snd (process_content cfg e content))"
  by (cases "decode_body e d") (simp add: process_body_def split: prod.splits)

lemma process_content_probe:
  "str_contains probe content \<Longrightarrow>
   process_content cfg e content = (Inr probe_ack, [Log INFO ''Received Cloudflare validation request''])"
  by (simp add: process_content_def)

subsection \<open>Decode failures\<close>

text \<open>
  C1, as the view has it. A POST that passes the check of the token, with a body that
  is not empty and whose decoding raises, is answered by the outer handler: the status
  is 500 and the body carries the text of the exception. The decode error reaches the
  handler; nothing is sent to the backend.
\<close>

theorem decode_failure_is_500:
  "reaches_decode cfg req \<Longrightarrow> fst (decode_body e (req_data req)) = Inl x \<Longrightarrow>
   receive_logs cfg e req =
     (error_response (exc_str e x) 500,
      snd (decode_body e (req_data req)) @ [Log ERROR (''Error processing logs: '' @ exc_str e x)]) \<and>
   snd (fst (receive_logs cfg e req)) = 500 \<and>
   filter is_post (snd (receive_logs cfg e req)) = []"
proof -
  assume r: "reaches_decode cfg req" and x: "fst (decode_body e (req_data req)) = Inl x"
  from r have d: "req_data req \<noteq> []" by (simp add: reaches_decode_def)
  have eq: "receive_logs cfg e req =
     (error_response (exc_str e x) 500,
      snd (decode_body e (req_data req)) @ [Log ERROR (''Error processing logs: '' @ exc_str e x)])"
    by (simp only: receive_logs_reaches [OF r] process_body_raises [OF d x] catch_all_Inl)
  have "snd (fst (receive_logs cfg e req)) = 500"
    by (simp add: eq error_response_def)
  moreover have "filter is_post (snd (receive_logs cfg e req)) = []"
    by (simp add: eq decode_body_posts)
  ultimately show ?thesis using eq by simp
qed

theorem decode_failure_is_500_witness:
  "receive_logs sample_cfg sample_env (post_request [0xFF]) =
     (error_response ''invalid start byte'' 500,
      [Log ERROR ''Error processing logs: invalid start byte''])"
proof -
  have r: "reaches_decode sample_cfg (post_request [0xFF])"
    by (simp add: reaches_decode_def post_request_def unauthorized_def sample_cfg_def)
  have x: "fst (decode_body sample_env (req_data (post_request [0xFF]))) =
      Inl (UnicodeDecodeError ''invalid start byte'')"
    by (simp add: post_request_def decode_body_def decode_raw_def sample_env_def
        sample_gunzip_def ascii_decode_def)
  have t: "snd (decode_body sample_env (req_data (post_request [0xFF]))) = []"
    by (simp add: post_request_def decode_body_def decode_raw_def sample_env_def
        sample_gunzip_def ascii_decode_def)
  have s: "exc_str sample_env (UnicodeDecodeError ''invalid start byte'') = ''invalid start byte''"
    by (simp add: sample_env_def)
  from decode_failure_is_500 [OF r x] show ?thesis
    by (simp add: t s)
qed

text \<open>
  C1 as stated fails: the body \<open>0xFF\<close> is neither gzip nor UTF-8, the raw decode
  raises, and the response is 500, not a status of the 400 class.
\<close>

theorem decode_failure_not_400:
  "req_method (post_request [0xFF]) = ''POST'' \<and>
   req_data (post_request [0xFF]) \<noteq> [] \<and>
   fst (decode_body sample_env (req_data (post_request [0xFF]))) =
     Inl (UnicodeDecodeError ''invalid start byte'') \<and>
   snd (fst (receive_logs sample_cfg sample_env (post_request [0xFF]))) = 500 \<and>
   \<not> (400 \<le> snd (fst (receive_logs sample_cfg sample_env (post_request [0xFF]))) \<and>
      snd (fst (receive_logs sample_cfg sample_env (post_request [0xFF]))) < 500)"
  by code_simp

subsection \<open>The validation probe\<close>

text \<open>
  C4. A POST that passes the check of the token, whose body decodes (through gzip or as
  it is) to a text that contains the probe \<open>{"content":"tests"}\<close>, is answered 200
  with the body \<open>{"text":"Success","code":0}\<close>. The trace holds what the decoding
  logged and the one line of the probe: no line was parsed and nothing was sent to the
  backend.
\<close>

theorem probe_short_circuit:
  "reaches_decode cfg req \<Longrightarrow> fst (decode_body e (req_data req)) = Inr content \<Longrightarrow>
   \<exists>p s. content = p @ probe @ s \<Longrightarrow>
   receive_logs cfg e req =
     (probe_ack,
      snd (decode_body e (req_data req)) @ [Log INFO ''Received Cloudflare validation request'']) \<and>
   probe_ack = (JObj [(''text'', JStr ''Success''), (''code'', JInt 0)], 200) \<and>
   filter is_post (snd (receive_logs cfg e req)) = []"
proof -
  assume r: "reaches_decode cfg req" and c: "fst (decode_body e (req_data req)) = Inr content"
    and p: "\<exists>p s. content = p @ probe @ s"
  from r have d: "req_data req \<noteq> []" by (simp add: reaches_decode_def)
  from p have sc: "str_contains probe content" by (simp only: str_contains_iff)
  have eq: "receive_logs cfg e req =
     (probe_ack,
      snd (decode_body e (req_data req)) @ [Log INFO ''Received Cloudflare validation request''])"
    by (simp add: receive_logs_reaches [OF r] process_body_decoded [OF d c]
        process_content_probe [OF sc] catch_all_Inr)
  have "filter is_post (snd (receive_logs cfg e req)) = []"
    by (simp add: eq decode_body_posts)
  then show ?thesis using eq by (simp add: probe_ack_def)
qed

theorem probe_short_circuit_witness:
  "receive_logs sample_cfg sample_env (post_request ([0x1F, 0x8B] @ probe_bytes)) =
     (probe_ack, [Log INFO ''Received Cloudflare validation request'']) \<and>
   receive_logs sample_cfg sample_env (post_request probe_bytes) =
     (probe_ack, [Log INFO ''Received Cloudflare validation request''])"
proof -
  have r1: "reaches_decode sample_cfg (post_request ([0x1F, 0x8B] @ probe_bytes))"
    by (simp add: reaches_decode_def post_request_def unauthorized_def sample_cfg_def)
  have r2: "reaches_decode sample_cfg (post_request probe_bytes)"
    by (simp add: reaches_decode_def post_request_def unauthorized_def sample_cfg_def probe_bytes_def)
  have d1: "decode_body sample_env (req_data (post_request ([0x1F, 0x8B] @ probe_bytes))) = (Inr probe, [])"
    by code_simp
  have d2: "decode_body sample_env (req_data (post_request probe_bytes)) = (Inr probe, [])"
    by code_simp
  have p: "\<exists>p s. probe = p @ probe @ s"
    by (rule exI [of _ "[]"], rule exI [of _ "[]"]) simp
  from probe_short_circuit [OF r1 _ p, of sample_env] d1
  have "receive_logs sample_cfg sample_env (post_request ([0x1F, 0x8B] @ probe_bytes)) =
     (probe_ack, [Log INFO ''Received Cloudflare validation request''])"
    by simp
  moreover from probe_short_circuit [OF r2 _ p, of sample_env] d2
  have "receive_logs sample_cfg sample_env (post_request probe_bytes) =
     (probe_ack, [Log INFO ''Received Cloudflare validation request''])"
    by simp
  ultimately show ?thesis by (rule conjI)
qed

subsection \<open>Statuses of the pipeline\<close>

lemma forward_logs_status:
  "fst (forward_logs cfg e logs) = Inr resp \<Longrightarrow> snd resp = 200 \<or> snd resp = 500"
  by (auto simp: forward_logs_def ok_processed_def error_response_def
      split: list.splits sum.splits prod.splits bool.splits)

lemma process_content_status:
  "fst (process_content cfg e content) = Inr resp \<Longrightarrow> snd resp = 200 \<or> snd resp = 500"
proof (cases "str_contains probe content")
  case True
  assume "fst (process_content cfg e content) = Inr resp"
  with True show ?thesis by (auto simp: process_content_def probe_ack_def)
next
  case False
  assume a: "fst (process_content cfg e content) = Inr resp"
  obtain r tr where p: "parse_ndjson e content = (r, tr)" by (cases "parse_ndjson e content") auto
  show ?thesis
  proof (cases r)
    case (Inl x)
    with a False p show ?thesis by (simp add: process_content_def)
  next
    case (Inr logs)
    with a False p have "fst (forward_logs cfg e logs) = Inr resp"
      by (simp add: process_content_def split: prod.splits)
    then show ?thesis by (rule forward_logs_status)
  qed
qed

lemma process_body_status:
  "fst (process_body cfg e d) = Inr resp \<Longrightarrow> snd resp = 200 \<or> snd resp = 400 \<or> snd resp = 500"
proof (cases "d = []")
  case True
  assume "fst (process_body cfg e d) = Inr resp"
  with True show ?thesis by (auto simp: process_body_def error_response_def)
next
  case False
  assume a: "fst (process_body cfg e d) = Inr resp"
  show ?thesis
  proof (cases "fst (decode_body e d)")
    case (Inl x)
    from a show ?thesis by (simp add: process_body_raises [OF False Inl])
  next
    case (Inr content)
    from a have "fst (process_content cfg e content) = Inr resp"
      by (simp add: process_body_decoded [OF False Inr])
    then have "snd resp = 200 \<or> snd resp = 500" by (rule process_content_status)
    then show ?thesis by blast
  qed
qed

lemma pipeline_status:
  "snd (fst (catch_all e (process_body cfg e d))) \<in> {200, 400, 500}"
proof (cases "process_body cfg e d")
  case (Pair r tr)
  show ?thesis
  proof (cases r)
    case (Inl x)
    with Pair show ?thesis by (simp add: catch_all_Inl error_response_def)
  next
    case (Inr resp)
    with Pair have "fst (process_body cfg e d) = Inr resp" by simp
    then have "snd resp = 200 \<or> snd resp = 400 \<or> snd resp = 500" by (rule process_body_status)
    with Pair Inr show ?thesis by (auto simp: catch_all_Inr)
  qed
qed

subsection \<open>The check of the token\<close>

text \<open>
  C2. On a POST, when the configured token is not the placeholder \<open>changeme\<close>, the
  request is answered 401 unless the \<open>Authorization\<close> header equals \<open>Bearer\<close>
  followed by the token or the token occurs in the \<open>token\<close> query parameter. The
  answer and the trace (one warning) are the same for every body and every library: nothing
  is decoded, parsed or sent. When the token is the placeholder, or the header or the
  parameter matches, the request goes on to the pipeline, whatever headers it has, and the
  answer is not a 401.
\<close>

theorem auth_check:
  "req_method req = ''POST'' \<Longrightarrow>
   (AUTH_TOKEN cfg \<noteq> ''changeme'' \<and>
    get_default (req_headers req) ''Authorization'' [] \<noteq> ''Bearer '' @ AUTH_TOKEN cfg \<and>
    \<not> (\<exists>p s. get_default (req_args req) ''token'' [] = p @ AUTH_TOKEN cfg @ s) \<longrightarrow>
      receive_logs cfg e req =
        (error_response ''Unauthorized'' 401,
         [Log WARNING (''Unauthorized request from '' @ remote_addr req)])) \<and>
   (AUTH_TOKEN cfg = ''changeme'' \<or>
    get_default (req_headers req) ''Authorization'' [] = ''Bearer '' @ AUTH_TOKEN cfg \<or>
    (\<exists>p s. get_default (req_args req) ''token'' [] = p @ AUTH_TOKEN cfg @ s) \<longrightarrow>
      receive_logs cfg e req = catch_all e (process_body cfg e (req_data req)) \<and>
      snd (fst (receive_logs cfg e req)) \<noteq> 401)"
proof (intro conjI impI)
  assume m: "req_method req = ''POST''"
  assume "AUTH_TOKEN cfg \<noteq> ''changeme'' \<and>
    get_default (req_headers req) ''Authorization'' [] \<noteq> ''Bearer '' @ AUTH_TOKEN cfg \<and>
    \<not> (\<exists>p s. get_default (req_args req) ''token'' [] = p @ AUTH_TOKEN cfg @ s)"
  then have "unauthorized cfg req"
    unfolding unauthorized_def str_contains_iff by blast
  with m show "receive_logs cfg e req =
        (error_response ''Unauthorized'' 401,
         [Log WARNING (''Unauthorized request from '' @ remote_addr req)])"
    by (simp add: receive_logs_def)
next
  assume m: "req_method req = ''POST''"
  assume "AUTH_TOKEN cfg = ''changeme'' \<or>
    get_default (req_headers req) ''Authorization'' [] = ''Bearer '' @ AUTH_TOKEN cfg \<or>
    (\<exists>p s. get_default (req_args req) ''token'' [] = p @ AUTH_TOKEN cfg @ s)"
  then have "\<not> unauthorized cfg req"
    unfolding unauthorized_def str_contains_iff by blast
  with m show eq: "receive_logs cfg e req = catch_all e (process_body cfg e (req_data req))"
    by (simp add: receive_logs_def)
  from pipeline_status [of e cfg "req_data req"]
  show "snd (fst (receive_logs cfg e req)) \<noteq> 401"
    by (auto simp: eq)
qed

theorem auth_check_witness:
  "receive_logs secured_cfg sample_env (bearer_request ''wrong'' probe_bytes) =
     (error_response ''Unauthorized'' 401, [Log WARNING ''Unauthorized request from 198.51.100.7'']) \<and>
   receive_logs secured_cfg sample_env (bearer_request ''s3cret'' probe_bytes) =
     (probe_ack, [Log INFO ''Received Cloudflare validation request'']) \<and>
   receive_logs secured_cfg sample_env (query_request ''xs3cretx'' probe_bytes) =
     (probe_ack, [Log INFO ''Received Cloudflare validation request'']) \<and>
   receive_logs sample_cfg sample_env (post_request probe_bytes) =
     (probe_ack, [Log INFO ''Received Cloudflare validation request''])"
proof -
  have pb: "catch_all sample_env (process_body c sample_env probe_bytes) =
      (probe_ack, [Log INFO ''Received Cloudflare validation request''])" for c
    by code_simp
  have n: "\<not> (\<exists>p s. [] = p @ ''s3cret'' @ s)" by simp
  have q: "\<exists>p s. ''xs3cretx'' = p @ ''s3cret'' @ s"
    by (rule exI [of _ "''x''"], rule exI [of _ "''x''"]) simp
  from auth_check [of "bearer_request ''wrong'' probe_bytes" secured_cfg sample_env] n
  have 1: "receive_logs secured_cfg sample_env (bearer_request ''wrong'' probe_bytes) =
     (error_response ''Unauthorized'' 401, [Log WARNING ''Unauthorized request from 198.51.100.7''])"
    by (simp add: bearer_request_def secured_cfg_def get_default_def)
  from auth_check [of "bearer_request ''s3cret'' probe_bytes" secured_cfg sample_env]
  have 2: "receive_logs secured_cfg sample_env (bearer_request ''s3cret'' probe_bytes) =
     (probe_ack, [Log INFO ''Received Cloudflare validation request''])"
    by (simp add: bearer_request_def secured_cfg_def get_default_def pb)
  from auth_check [of "query_request ''xs3cretx'' probe_bytes" secured_cfg sample_env] q
  have 3: "receive_logs secured_cfg sample_env (query_request ''xs3cretx'' probe_bytes) =
     (probe_ack, [Log INFO ''Received Cloudflare validation request''])"
    by (simp add: query_request_def secured_cfg_def get_default_def pb)
  from auth_check [of "post_request probe_bytes" sample_cfg sample_env]
  have 4: "receive_logs sample_cfg sample_env (post_request probe_bytes) =
     (probe_ack, [Log INFO ''Received Cloudflare validation request''])"
    by (simp add: post_request_def sample_cfg_def pb)
  from 1 2 3 4 show ?thesis by blast
qed

subsection \<open>From the parsed records to the backend\<close>

lemma fst_catch_all:
  "fst (catch_all e r) = (case fst r of Inr resp \<Rightarrow> resp | Inl x \<Rightarrow> error_response (exc_str e x) 500)"
  by (cases r) (simp add: catch_all_def split: sum.splits)

lemma process_content_parsed:
  "\<not> str_contains probe content \<Longrightarrow> fst (parse_ndjson e content) = Inr logs \<Longrightarrow>
   fst (process_content cfg e content) = fst (forward_logs cfg e logs) \<and>
   filter is_post (snd (process_content cfg e content)) = filter is_post (snd (forward_logs cfg e logs))"
proof -
  assume np: "\<not> str_contains probe content" and pl: "fst (parse_ndjson e content) = Inr logs"
  obtain tr where p: "parse_ndjson e content = (Inr logs, tr)"
    using pl by (cases "parse_ndjson e content") auto
  have "filter is_post (snd (parse_ndjson e content)) = []" by (rule parse_ndjson_posts)
  with p have tr: "filter is_post tr = []" by simp
  obtain r tr' where f: "forward_logs cfg e logs = (r, tr')" by (cases "forward_logs cfg e logs") auto
  from np p f have "process_content cfg e content = (r, tr @ tr')"
    by (simp add: process_content_def)
  with f tr show ?thesis by simp
qed

lemma receive_logs_parsed:
  "parses_to cfg e req logs \<Longrightarrow>
   fst (receive_logs cfg e req) = fst (catch_all e (forward_logs cfg e logs)) \<and>
   filter is_post (snd (receive_logs cfg e req)) = filter is_post (snd (forward_logs cfg e logs))"
proof -
  assume "parses_to cfg e req logs"
  then obtain content where r: "reaches_decode cfg req"
    and c: "fst (decode_body e (req_data req)) = Inr content"
    and np: "\<not> str_contains probe content"
    and pl: "fst (parse_ndjson e content) = Inr logs"
    by (auto simp: parses_to_def)
  from r have d: "req_data req \<noteq> []" by (simp add: reaches_decode_def)
  note pc = process_content_parsed [OF np pl, of cfg]
  have 1: "fst (process_body cfg e (req_data req)) = fst (forward_logs cfg e logs)"
    by (simp add: process_body_decoded [OF d c] pc)
  have 2: "filter is_post (snd (process_body cfg e (req_data req))) =
      filter is_post (snd (forward_logs cfg e logs))"
    by (simp add: process_body_decoded [OF d c] pc decode_body_posts)
  show ?thesis
    by (simp add: receive_logs_reaches [OF r] fst_catch_all catch_all_posts 1 2)
qed

lemma build_values_objects:
  "\<forall>l\<in>set logs. is_object l \<Longrightarrow> build_values e i logs = Inr (values_from e i logs)"
proof (induction logs arbitrary: i)
  case Nil
  show ?case by (simp add: values_from_def)
next
  case (Cons l logs)
  then have o: "is_object l" and IH: "build_values e (Suc i) logs = Inr (values_from e (Suc i) logs)"
    by simp_all
  from o obtain kvs where "l = JObj kvs" by (cases l) simp_all
  with IH show ?case by (simp add: values_from_def)
qed

lemma length_values_from: "length (values_from e i logs) = length logs"
  by (simp add: values_from_def)

lemma nth_values_from:
  "j < length logs \<Longrightarrow>
   values_from e i logs ! j =
     (ts_ns e (i + j) (obj_field (logs ! j) ''EdgeStartTimestamp''), json_dumps e (logs ! j))"
  by (simp add: values_from_def nth_enumerate_eq)

lemma build_values_length:
  "build_values e i logs = Inr vs \<Longrightarrow> length vs = length logs"
proof (induction logs arbitrary: i vs)
  case Nil
  then show ?case by simp
next
  case (Cons l logs)
  then show ?case
    by (auto split: sum.splits)
qed

lemma post_payload_posts:
  "filter is_post (snd (post_payload cfg e p)) = [BackendPost (push_url cfg) p]"
  by (simp add: post_payload_def push_failed_def split: sum.splits option.splits)

lemma push_to_loki_objects:
  "logs \<noteq> [] \<Longrightarrow> \<forall>l\<in>set logs. is_object l \<Longrightarrow>
   push_to_loki cfg e logs (Some labels) = post_payload cfg e (one_stream e labels logs)"
  by (simp add: push_to_loki_def build_values_objects one_stream_def)

lemma derive_labels_object:
  "is_object r \<Longrightarrow> derive_labels r = Inr (spec_labels (r # rs))"
proof -
  assume "is_object r"
  then obtain kvs where r: "r = JObj kvs" by (cases r) simp_all
  show ?thesis
  proof (cases "map_of kvs ''ClientRequestHost''")
    case None
    then have "''ClientRequestHost'' \<notin> fst ` set kvs" by (simp add: map_of_eq_None_iff)
    with None r show ?thesis by (simp add: derive_labels_def spec_labels_def)
  next
    case (Some v)
    then have "''ClientRequestHost'' \<in> fst ` set kvs"
      by (metis map_of_eq_None_iff option.distinct(1))
    with Some r show ?thesis by (simp add: derive_labels_def spec_labels_def)
  qed
qed

lemma forward_logs_posts:
  "derive_labels r = Inr labels \<Longrightarrow>
   filter is_post (snd (forward_logs cfg e (r # rs))) =
     filter is_post (snd (push_to_loki cfg e (r # rs) (Some labels)))"
  by (cases "push_to_loki cfg e (r # rs) (Some labels)")
    (simp add: forward_logs_def split: sum.splits bool.splits)

lemma forward_logs_result:
  "derive_labels r = Inr labels \<Longrightarrow>
   fst (forward_logs cfg e (r # rs)) =
     (case fst (push_to_loki cfg e (r # rs) (Some labels)) of
        Inl x \<Rightarrow> Inl x
      | Inr True \<Rightarrow> Inr (ok_processed (length (r # rs)))
      | Inr False \<Rightarrow> Inr (error_response ''Failed to push to Loki'' 500))"
  by (cases "push_to_loki cfg e (r # rs) (Some labels)")
    (simp add: forward_logs_def split: sum.splits bool.splits)

lemma spec_labels_fixed:
  "map_of (spec_labels logs) ''job'' = Some (JStr ''cloudflare'') \<and>
   map_of (spec_labels logs) ''source'' = Some (JStr ''logpush'')"
  by (simp add: spec_labels_def default_labels_def split: list.splits option.splits)

lemma spec_labels_host:
  "map_of (spec_labels (r # rs)) ''host'' = obj_field r ''ClientRequestHost''"
  by (simp add: spec_labels_def default_labels_def split: option.splits)

lemma push_posts:
  "BackendPost u p \<in> set (snd (push_to_loki cfg e logs labels)) \<Longrightarrow>
   logs \<noteq> [] \<and> (\<exists>lb vs. build_values e 0 logs = Inr vs \<and> p = [\<lparr>stream_labels = lb, stream_values = vs\<rparr>])"
proof -
  assume a: "BackendPost u p \<in> set (snd (push_to_loki cfg e logs labels))"
  show ?thesis
  proof (cases "logs = []")
    case True
    with a show ?thesis by (simp add: push_to_loki_def)
  next
    case False
    show ?thesis
    proof (cases "build_values e 0 logs")
      case (Inl x)
      with a False show ?thesis by (simp add: push_to_loki_def)
    next
      case (Inr vs)
      define lb where "lb = (case labels of None \<Rightarrow> default_labels | Some l \<Rightarrow> l)"
      from a False Inr
      have "BackendPost u p \<in> set (snd (post_payload cfg e [\<lparr>stream_labels = lb, stream_values = vs\<rparr>]))"
        by (simp add: push_to_loki_def lb_def)
      then have "BackendPost u p \<in> set (filter is_post (snd (post_payload cfg e [\<lparr>stream_labels = lb, stream_values = vs\<rparr>])))"
        by simp
      then have "p = [\<lparr>stream_labels = lb, stream_values = vs\<rparr>]"
        by (simp only: post_payload_posts) simp
      with False Inr show ?thesis by blast
    qed
  qed
qed

lemma forward_logs_posts_push:
  "\<exists>logs' labels. filter is_post (snd (forward_logs cfg e logs)) =
     filter is_post (snd (push_to_loki cfg e logs' labels))"
proof (cases logs)
  case Nil
  then have "filter is_post (snd (forward_logs cfg e logs)) =
     filter is_post (snd (push_to_loki cfg e [] None))"
    by (simp add: forward_logs_def push_to_loki_def)
  then show ?thesis by blast
next
  case (Cons r rs)
  show ?thesis
  proof (cases "derive_labels r")
    case (Inl x)
    with Cons have "filter is_post (snd (forward_logs cfg e logs)) =
       filter is_post (snd (push_to_loki cfg e [] None))"
      by (simp add: forward_logs_def push_to_loki_def)
    then show ?thesis by blast
  next
    case (Inr labels)
    from forward_logs_posts [OF Inr] Cons show ?thesis by blast
  qed
qed

lemma process_content_posts_push:
  "\<exists>logs labels. filter is_post (snd (process_content cfg e content)) =
     filter is_post (snd (push_to_loki cfg e logs labels))"
proof (cases "str_contains probe content")
  case True
  then have "filter is_post (snd (process_content cfg e content)) =
     filter is_post (snd (push_to_loki cfg e [] None))"
    by (simp add: process_content_probe push_to_loki_def)
  then show ?thesis by blast
next
  case False
  show ?thesis
  proof (cases "fst (parse_ndjson e content)")
    case (Inl x)
    then obtain tr where p: "parse_ndjson e content = (Inl x, tr)"
      by (cases "parse_ndjson e content") auto
    have "filter is_post (snd (parse_ndjson e content)) = []" by (rule parse_ndjson_posts)
    with p have "filter is_post tr = []" by simp
    with False p have "filter is_post (snd (process_content cfg e content)) =
       filter is_post (snd (push_to_loki cfg e [] None))"
      by (simp add: process_content_def push_to_loki_def)
    then show ?thesis by blast
  next
    case (Inr logs)
    from process_content_parsed [OF False Inr, of cfg] forward_logs_posts_push [of cfg e logs]
    show ?thesis by auto
  qed
qed

lemma process_body_posts_push:
  "\<exists>logs labels. filter is_post (snd (process_body cfg e d)) =
     filter is_post (snd (push_to_loki cfg e logs labels))"
proof (cases "d = []")
  case True
  then have "filter is_post (snd (process_body cfg e d)) =
     filter is_post (snd (push_to_loki cfg e [] None))"
    by (simp add: process_body_def push_to_loki_def)
  then show ?thesis by blast
next
  case False
  show ?thesis
  proof (cases "fst (decode_body e d)")
    case (Inl x)
    have "filter is_post (snd (process_body cfg e d)) =
       filter is_post (snd (push_to_loki cfg e [] None))"
      by (simp add: process_body_raises [OF False Inl] decode_body_posts push_to_loki_def)
    then show ?thesis by blast
  next
    case (Inr content)
    have "filter is_post (snd (process_body cfg e d)) =
       filter is_post (snd (process_content cfg e content))"
      by (simp add: process_body_decoded [OF False Inr] decode_body_posts)
    with process_content_posts_push [of cfg e content] show ?thesis by auto
  qed
qed

lemma receive_logs_posts_push:
  "\<exists>logs labels. filter is_post (snd (receive_logs cfg e req)) =
     filter is_post (snd (push_to_loki cfg e logs labels))"
proof (cases "req_method req = ''GET'' \<or> unauthorized cfg req")
  case True
  then have "filter is_post (snd (receive_logs cfg e req)) =
     filter is_post (snd (push_to_loki cfg e [] None))"
    by (auto simp: receive_logs_def push_to_loki_def)
  then show ?thesis by blast
next
  case False
  then have "filter is_post (snd (receive_logs cfg e req)) =
     filter is_post (snd (process_body cfg e (req_data req)))"
    by (simp add: receive_logs_def catch_all_posts)
  with process_body_posts_push [of cfg e "req_data req"] show ?thesis by auto
qed

lemma posts_filterI: "BackendPost u p \<in> set tr \<Longrightarrow> BackendPost u p \<in> set (filter is_post tr)"
  by simp

lemma posts_filterD: "BackendPost u p \<in> set (filter is_post tr) \<Longrightarrow> BackendPost u p \<in> set tr"
  by simp

lemma posting_parses_object:
  "parses_to sample_cfg (sample_env\<lparr>http_post := h\<rparr>) (post_request [0x7B, 0x7D]) [JObj []]"
proof -
  have r: "reaches_decode sample_cfg (post_request [0x7B, 0x7D])"
    by (simp add: reaches_decode_def post_request_def unauthorized_def sample_cfg_def)
  have d: "fst (decode_body (sample_env\<lparr>http_post := h\<rparr>) (req_data (post_request [0x7B, 0x7D]))) = Inr ''{}''"
    by (simp add: sample_env_def post_request_def decode_body_def decode_raw_def
        sample_gunzip_def) code_simp
  have n: "\<not> str_contains probe ''{}''" by code_simp
  have p: "fst (parse_ndjson (sample_env\<lparr>http_post := h\<rparr>) ''{}'') = Inr [JObj []]"
    by (simp add: sample_env_def parse_ndjson_def sample_loads_def strip_def
        lstrip_def rstrip_def py_isspace_def newline_def)
  from r d n p show ?thesis unfolding parses_to_def by blast
qed

lemma sample_parses_object:
  "parses_to sample_cfg (answering code) (post_request [0x7B, 0x7D]) [JObj []]"
  unfolding answering_def by (rule posting_parses_object)

lemma sample_env_parses_object:
  "parses_to sample_cfg sample_env (post_request [0x7B, 0x7D]) [JObj []]"
  using posting_parses_object [of "http_post sample_env"] by simp

lemma sample_parses_blank:
  "parses_to sample_cfg sample_env (post_request [0x0A, 0x0A]) []"
proof -
  have r: "reaches_decode sample_cfg (post_request [0x0A, 0x0A])"
    by (simp add: reaches_decode_def post_request_def unauthorized_def sample_cfg_def)
  have d: "fst (decode_body sample_env (req_data (post_request [0x0A, 0x0A]))) = Inr [newline, newline]"
    by code_simp
  have n: "\<not> str_contains probe [newline, newline]" by code_simp
  have p: "fst (parse_ndjson sample_env [newline, newline]) = Inr []" by code_simp
  from r d n p show ?thesis unfolding parses_to_def by blast
qed

lemma sample_parses_scalar:
  "parses_to sample_cfg sample_env (post_request [0x37]) [JInt 7]"
proof -
  have r: "reaches_decode sample_cfg (post_request [0x37])"
    by (simp add: reaches_decode_def post_request_def unauthorized_def sample_cfg_def)
  have d: "fst (decode_body sample_env (req_data (post_request [0x37]))) = Inr ''7''"
    by code_simp
  have n: "\<not> str_contains probe ''7''" by code_simp
  have p: "fst (parse_ndjson sample_env ''7'') = Inr [JInt 7]" by code_simp
  from r d n p show ?thesis unfolding parses_to_def by blast
qed

lemma str_int_clock: "str_int 1700000000000000000 = ''1700000000000000000''"
  by (simp add: str_int_def str_nat.simps digit_char_def)

lemma str_int_stamp: "str_int 1704067200000000000 = ''1704067200000000000''"
  by (simp add: str_int_def str_nat.simps digit_char_def)

lemma replace_Z_stamp: "replace_Z ''2024-01-01T00:00:00Z'' = ''2024-01-01T00:00:00+00:00''"
  by (simp add: replace_Z_def)

lemma sample_labels_eval:
  "spec_labels [host_record, stamped_record] =
     [(''job'', JStr ''cloudflare''), (''source'', JStr ''logpush''), (''host'', JStr ''a.example'')]"
  by (simp add: spec_labels_def host_record_def default_labels_def)

lemma sample_values_eval:
  "values_from sample_env 0 [host_record, stamped_record] =
     [(''1700000000000000000'', host_line), (''1704067200000000000'', stamped_line)]"
  by (simp add: values_from_def enumerate_eq_zip sample_env_def ts_ns_def now_str_def
      host_record_def stamped_record_def sample_dumps_def sample_clock_def sample_iso_def
      str_int_clock str_int_stamp replace_Z_stamp)

lemma answering_push:
  "fst (push_to_loki cfg (answering code) [JObj []] (Some lb)) = Inr (\<not> (400 \<le> code \<and> code < 600))"
  by (simp add: push_to_loki_def post_payload_def answering_def raise_for_status_def)

lemma is_scalar_iff:
  "is_scalar r \<longleftrightarrow> \<not> is_object r \<and> (\<forall>s. r \<noteq> JStr s) \<and> (\<forall>xs. r \<noteq> JArr xs)"
  by (cases r) simp_all

lemma sample_parses_mixed:
  "parses_to sample_cfg sample_env (post_request sample_plain) [JObj [], JInt 7]"
proof -
  have r: "reaches_decode sample_cfg (post_request sample_plain)"
    by (simp add: reaches_decode_def post_request_def unauthorized_def sample_cfg_def sample_plain_def)
  have d: "fst (decode_body sample_env (req_data (post_request sample_plain))) = Inr sample_text"
    by code_simp
  have n: "\<not> str_contains probe sample_text" by code_simp
  have p: "fst (parse_ndjson sample_env sample_text) = Inr [JObj [], JInt 7]" by code_simp
  from r d n p show ?thesis unfolding parses_to_def by blast
qed

subsection \<open>The stream of a push\<close>

text \<open>
  C5, as the code has it. For every batch of \<open>N\<close> records that is not empty and
  whose records are all JSON objects, a push performs one post, of one stream. The stream
  carries the label set it was given and \<open>N\<close> values: the value at index \<open>j\<close>
  pairs the timestamp string of record \<open>j\<close> with its serialization. The label set
  the view gives it holds the fixed \<open>job\<close> and \<open>source\<close>, and as \<open>host\<close>
  the host field of the first record when it has one; no other record is looked at.
\<close>

theorem one_stream_per_push:
  "logs \<noteq> [] \<Longrightarrow> \<forall>l\<in>set logs. is_object l \<Longrightarrow>
   filter is_post (snd (push_to_loki cfg e logs (Some labels))) =
     [BackendPost (push_url cfg) (one_stream e labels logs)] \<and>
   filter is_post (snd (forward_logs cfg e logs)) =
     [BackendPost (push_url cfg) (one_stream e (spec_labels logs) logs)] \<and>
   length (one_stream e labels logs) = 1 \<and>
   stream_labels (hd (one_stream e labels logs)) = labels \<and>
   length (stream_values (hd (one_stream e labels logs))) = length logs \<and>
   (\<forall>j<length logs. stream_values (hd (one_stream e labels logs)) ! j =
      (ts_ns e j (obj_field (logs ! j) ''EdgeStartTimestamp''), json_dumps e (logs ! j))) \<and>
   map_of (spec_labels logs) ''job'' = Some (JStr ''cloudflare'') \<and>
   map_of (spec_labels logs) ''source'' = Some (JStr ''logpush'') \<and>
   map_of (spec_labels logs) ''host'' = obj_field (hd logs) ''ClientRequestHost'' \<and>
   spec_labels logs = spec_labels [hd logs]"
proof -
  assume ne: "logs \<noteq> []" and ob: "\<forall>l\<in>set logs. is_object l"
  from ne obtain r rs where l: "logs = r # rs" by (cases logs) auto
  with ob have "is_object r" by simp
  then have dl: "derive_labels r = Inr (spec_labels (r # rs))" by (rule derive_labels_object)
  have 1: "filter is_post (snd (push_to_loki cfg e logs (Some lb))) =
     [BackendPost (push_url cfg) (one_stream e lb logs)]" for lb
    by (simp only: push_to_loki_objects [OF ne ob] post_payload_posts)
  have 2: "filter is_post (snd (forward_logs cfg e logs)) =
     [BackendPost (push_url cfg) (one_stream e (spec_labels logs) logs)]"
    using forward_logs_posts [OF dl, of cfg e] 1 [of "spec_labels logs"] l by simp
  have 3: "\<forall>j<length logs. stream_values (hd (one_stream e labels logs)) ! j =
      (ts_ns e j (obj_field (logs ! j) ''EdgeStartTimestamp''), json_dumps e (logs ! j))"
    by (simp add: one_stream_def nth_values_from)
  have 4: "map_of (spec_labels logs) ''host'' = obj_field (hd logs) ''ClientRequestHost''"
    using l by (simp add: spec_labels_host)
  have 5: "spec_labels logs = spec_labels [hd logs]"
    using l by (simp add: spec_labels_def)
  have 6: "length (one_stream e labels logs) = 1 \<and>
     stream_labels (hd (one_stream e labels logs)) = labels \<and>
     length (stream_values (hd (one_stream e labels logs))) = length logs"
    by (simp add: one_stream_def length_values_from)
  from 1 [of labels] 2 3 4 5 6 spec_labels_fixed [of logs] show ?thesis by blast
qed

theorem one_stream_per_push_witness:
  "filter is_post (snd (forward_logs sample_cfg sample_env [host_record, stamped_record])) =
     [BackendPost ''http://loki:3100/loki/api/v1/push''
        [\<lparr>stream_labels = [(''job'', JStr ''cloudflare''), (''source'', JStr ''logpush''),
                           (''host'', JStr ''a.example'')],
          stream_values = [(''1700000000000000000'', host_line),
                           (''1704067200000000000'', stamped_line)]\<rparr>]]"
proof -
  have ne: "[host_record, stamped_record] \<noteq> []" by simp
  have ob: "\<forall>l\<in>set [host_record, stamped_record]. is_object l"
    by (simp add: host_record_def stamped_record_def)
  have u: "push_url sample_cfg = ''http://loki:3100/loki/api/v1/push''"
    by (simp add: push_url_def sample_cfg_def)
  have s: "one_stream sample_env (spec_labels [host_record, stamped_record]) [host_record, stamped_record] =
     [\<lparr>stream_labels = [(''job'', JStr ''cloudflare''), (''source'', JStr ''logpush''),
                           (''host'', JStr ''a.example'')],
          stream_values = [(''1700000000000000000'', host_line),
                           (''1704067200000000000'', stamped_line)]\<rparr>]"
    by (simp only: one_stream_def sample_labels_eval sample_values_eval)
  from one_stream_per_push [OF ne ob, of sample_cfg sample_env default_labels, THEN conjunct2, THEN conjunct1]
  show ?thesis by (simp only: u s)
qed

text \<open>
  C5 as stated fails on a batch with a record that is not an object: the text of two
  lines \<open>{}\<close> and \<open>7\<close> parses to two records, the push raises at the
  second one before any stream is built, nothing is posted and the view answers 500.
\<close>

theorem no_stream_for_a_number:
  "fst (parse_ndjson sample_env sample_text) = Inr [JObj [], JInt 7] \<and>
   push_to_loki sample_cfg sample_env [JObj [], JInt 7] (Some default_labels) =
     (Inl (AttributeError (JInt 7)), []) \<and>
   filter is_post (snd (receive_logs sample_cfg sample_env (post_request sample_plain))) = [] \<and>
   snd (fst (receive_logs sample_cfg sample_env (post_request sample_plain))) = 500"
proof -
  have 1: "fst (parse_ndjson sample_env sample_text) = Inr [JObj [], JInt 7]" by code_simp
  have 2: "push_to_loki sample_cfg sample_env [JObj [], JInt 7] (Some lb) =
     (Inl (AttributeError (JInt 7)), [])" for lb
    by (simp add: push_to_loki_def)
  have d: "derive_labels (JObj []) = Inr default_labels"
    by (simp add: derive_labels_def)
  have f: "forward_logs sample_cfg sample_env [JObj [], JInt 7] = (Inl (AttributeError (JInt 7)), [])"
    by (simp add: forward_logs_def d 2)
  from receive_logs_parsed [OF sample_parses_mixed]
  have 3: "filter is_post (snd (receive_logs sample_cfg sample_env (post_request sample_plain))) = []"
    and 4: "snd (fst (receive_logs sample_cfg sample_env (post_request sample_plain))) = 500"
    by (simp_all add: f catch_all_Inl error_response_def)
  from 1 2 [of default_labels] 3 4 show ?thesis by simp
qed

subsection \<open>The outcome of a push\<close>

text \<open>
  C7, as the code has it. For a batch of objects that is not empty, the push returns
  true exactly when the post completes with a status outside 400 to 599, which is what
  \<open>raise_for_status\<close> lets through. On a status from 400 to 599, or when the post
  raises a \<open>RequestException\<close>, the push makes that one post, logs the error and
  returns false; the view then answers 500 with its own error body.
\<close>

theorem push_success_iff:
  "logs \<noteq> [] \<Longrightarrow> \<forall>l\<in>set logs. is_object l \<Longrightarrow>
   (fst (push_to_loki cfg e logs (Some labels)) = Inr True \<longleftrightarrow>
      (\<exists>code. http_post e (push_url cfg) (one_stream e labels logs) = Inr code \<and>
         \<not> (400 \<le> code \<and> code < 600))) \<and>
   ((\<exists>code. http_post e (push_url cfg) (one_stream e labels logs) = Inr code \<and>
         400 \<le> code \<and> code < 600) \<or>
    (\<exists>x. http_post e (push_url cfg) (one_stream e labels logs) = Inl x \<and> is_RequestException x) \<longrightarrow>
      (\<exists>x. push_to_loki cfg e logs (Some labels) =
         (Inr False,
          [BackendPost (push_url cfg) (one_stream e labels logs),
           Log ERROR (''Failed to push to Loki: '' @ exc_str e x)]))) \<and>
   (fst (push_to_loki cfg e logs (Some (spec_labels logs))) = Inr False \<longrightarrow>
      fst (forward_logs cfg e logs) = Inr (error_response ''Failed to push to Loki'' 500) \<and>
      (parses_to cfg e req logs \<longrightarrow>
         fst (receive_logs cfg e req) = error_response ''Failed to push to Loki'' 500))"
proof -
  assume ne: "logs \<noteq> []" and ob: "\<forall>l\<in>set logs. is_object l"
  from ne obtain r rs where l: "logs = r # rs" by (cases logs) auto
  with ob have "is_object r" by simp
  then have dl: "derive_labels r = Inr (spec_labels (r # rs))" by (rule derive_labels_object)
  note pp = push_to_loki_objects [OF ne ob, of cfg e labels]
  have 1: "fst (push_to_loki cfg e logs (Some labels)) = Inr True \<longleftrightarrow>
      (\<exists>code. http_post e (push_url cfg) (one_stream e labels logs) = Inr code \<and>
         \<not> (400 \<le> code \<and> code < 600))"
    by (cases "http_post e (push_url cfg) (one_stream e labels logs)")
      (simp_all add: pp post_payload_def raise_for_status_def)
  have 2: "(\<exists>code. http_post e (push_url cfg) (one_stream e labels logs) = Inr code \<and>
         400 \<le> code \<and> code < 600) \<or>
    (\<exists>x. http_post e (push_url cfg) (one_stream e labels logs) = Inl x \<and> is_RequestException x) \<longrightarrow>
      (\<exists>x. push_to_loki cfg e logs (Some labels) =
         (Inr False,
          [BackendPost (push_url cfg) (one_stream e labels logs),
           Log ERROR (''Failed to push to Loki: '' @ exc_str e x)]))"
    by (cases "http_post e (push_url cfg) (one_stream e labels logs)")
      (auto simp: pp post_payload_def raise_for_status_def push_failed_def)
  have 3: "fst (push_to_loki cfg e logs (Some (spec_labels logs))) = Inr False \<longrightarrow>
      fst (forward_logs cfg e logs) = Inr (error_response ''Failed to push to Loki'' 500) \<and>
      (parses_to cfg e req logs \<longrightarrow>
         fst (receive_logs cfg e req) = error_response ''Failed to push to Loki'' 500)"
  proof (intro impI conjI)
    assume f: "fst (push_to_loki cfg e logs (Some (spec_labels logs))) = Inr False"
    with forward_logs_result [OF dl, of cfg e] l
    show fl: "fst (forward_logs cfg e logs) = Inr (error_response ''Failed to push to Loki'' 500)"
      by simp
    assume "parses_to cfg e req logs"
    from receive_logs_parsed [OF this]
    show "fst (receive_logs cfg e req) = error_response ''Failed to push to Loki'' 500"
      by (simp add: fst_catch_all fl)
  qed
  from 1 2 3 show ?thesis by blast
qed

theorem push_success_iff_witness:
  "fst (push_to_loki sample_cfg (answering 204) [JObj []] (Some default_labels)) = Inr True \<and>
   fst (push_to_loki sample_cfg (answering 500) [JObj []] (Some default_labels)) = Inr False \<and>
   fst (push_to_loki sample_cfg unreachable [JObj []] (Some default_labels)) = Inr False \<and>
   fst (receive_logs sample_cfg (answering 500) (post_request [0x7B, 0x7D])) =
     error_response ''Failed to push to Loki'' 500"
proof -
  have ne: "[JObj []] \<noteq> []" by simp
  have ob: "\<forall>l\<in>set [JObj []]. is_object l" by simp
  have "\<exists>c. http_post (answering 204) (push_url sample_cfg) (one_stream (answering 204) default_labels [JObj []]) = Inr c
      \<and> \<not> (400 \<le> c \<and> c < 600)"
    by (simp add: answering_def)
  with push_success_iff [OF ne ob, of sample_cfg "answering 204" default_labels, THEN conjunct1]
  have 1: "fst (push_to_loki sample_cfg (answering 204) [JObj []] (Some default_labels)) = Inr True"
    by blast
  have "\<exists>c. http_post (answering 500) (push_url sample_cfg) (one_stream (answering 500) lb [JObj []]) = Inr c
      \<and> 400 \<le> c \<and> c < 600" for lb
    by (simp add: answering_def)
  with push_success_iff [OF ne ob, of sample_cfg "answering 500", THEN conjunct2, THEN conjunct1]
  have "\<exists>x. push_to_loki sample_cfg (answering 500) [JObj []] (Some lb) =
         (Inr False,
          [BackendPost (push_url sample_cfg) (one_stream (answering 500) lb [JObj []]),
           Log ERROR (''Failed to push to Loki: '' @ exc_str (answering 500) x)])" for lb
    by blast
  then have 2: "fst (push_to_loki sample_cfg (answering 500) [JObj []] (Some lb)) = Inr False" for lb
    by (metis fst_conv)
  have "\<exists>x. http_post unreachable (push_url sample_cfg) (one_stream unreachable default_labels [JObj []]) = Inl x
      \<and> is_RequestException x"
    by (simp add: unreachable_def)
  with push_success_iff [OF ne ob, of sample_cfg unreachable default_labels, THEN conjunct2, THEN conjunct1]
  have "\<exists>x. push_to_loki sample_cfg unreachable [JObj []] (Some default_labels) =
         (Inr False,
          [BackendPost (push_url sample_cfg) (one_stream unreachable default_labels [JObj []]),
           Log ERROR (''Failed to push to Loki: '' @ exc_str unreachable x)])"
    by blast
  then have 3: "fst (push_to_loki sample_cfg unreachable [JObj []] (Some default_labels)) = Inr False"
    by (metis fst_conv)
  from push_success_iff [OF ne ob, of sample_cfg "answering 500" default_labels "post_request [0x7B, 0x7D]",
      THEN conjunct2, THEN conjunct2] 2 [of "spec_labels [JObj []]"] sample_parses_object [of 500]
  have 4: "fst (receive_logs sample_cfg (answering 500) (post_request [0x7B, 0x7D])) =
     error_response ''Failed to push to Loki'' 500"
    by blast
  from 1 2 [of default_labels] 3 4 show ?thesis by blast
qed

text \<open>
  C7 as stated fails: a backend that answers 304, which is not a 2xx status, makes the
  push return true, and the view answers 200.
\<close>

theorem push_true_on_304:
  "http_post (answering 304) (push_url sample_cfg) (one_stream (answering 304) default_labels [JObj []])
     = Inr 304 \<and>
   \<not> (200 \<le> (304::nat) \<and> (304::nat) < 300) \<and>
   fst (push_to_loki sample_cfg (answering 304) [JObj []] (Some default_labels)) = Inr True \<and>
   fst (receive_logs sample_cfg (answering 304) (post_request [0x7B, 0x7D])) = ok_processed 1"
proof -
  have 1: "http_post (answering 304) (push_url sample_cfg)
      (one_stream (answering 304) default_labels [JObj []]) = Inr 304"
    by (simp add: answering_def)
  have 2: "fst (push_to_loki sample_cfg (answering 304) [JObj []] (Some lb)) = Inr True" for lb
    by (simp add: answering_push)
  have d: "derive_labels (JObj []) = Inr default_labels"
    by (simp add: derive_labels_def)
  from forward_logs_result [OF d, of sample_cfg "answering 304" "[]"] 2 [of default_labels]
  have "fst (forward_logs sample_cfg (answering 304) [JObj []]) = Inr (ok_processed 1)"
    by simp
  with receive_logs_parsed [OF sample_parses_object [of 304]]
  have 3: "fst (receive_logs sample_cfg (answering 304) (post_request [0x7B, 0x7D])) = ok_processed 1"
    by (simp add: fst_catch_all)
  from 1 2 [of default_labels] 3 show ?thesis by simp
qed

subsection \<open>No push without records\<close>

text \<open>
  C8. A push of the empty list returns true and posts nothing. When the parser collects
  no record, the view answers 200 with \<open>{"status":"ok","processed":0}\<close> and posts
  nothing. Every post that a push or the view makes carries streams whose values are not
  empty: as many as the batch has records.
\<close>

theorem no_push_without_records:
  "push_to_loki cfg e [] labels = (Inr True, []) \<and>
   (parses_to cfg e req [] \<longrightarrow>
      fst (receive_logs cfg e req) = (JObj [(''status'', JStr ''ok''), (''processed'', JInt 0)], 200) \<and>
      filter is_post (snd (receive_logs cfg e req)) = []) \<and>
   (BackendPost u p \<in> set (snd (push_to_loki cfg e logs labels)) \<longrightarrow>
      logs \<noteq> [] \<and> (\<forall>s\<in>set p. length (stream_values s) = length logs)) \<and>
   (BackendPost u p \<in> set (snd (receive_logs cfg e req)) \<longrightarrow>
      (\<forall>s\<in>set p. stream_values s \<noteq> []))"
proof (intro conjI impI)
  show "push_to_loki cfg e [] labels = (Inr True, [])"
    by (simp add: push_to_loki_def)
next
  assume a: "parses_to cfg e req []"
  have f: "forward_logs cfg e [] = (Inr (ok_processed 0), [Log INFO ''No valid logs to process''])"
    by (simp add: forward_logs_def)
  from receive_logs_parsed [OF a]
  show "fst (receive_logs cfg e req) = (JObj [(''status'', JStr ''ok''), (''processed'', JInt 0)], 200)"
    by (simp add: f catch_all_Inr ok_processed_def)
  from receive_logs_parsed [OF a]
  show "filter is_post (snd (receive_logs cfg e req)) = []"
    by (simp add: f)
next
  assume a: "BackendPost u p \<in> set (snd (push_to_loki cfg e logs labels))"
  from push_posts [OF a] show "logs \<noteq> []" by blast
  from push_posts [OF a] obtain lb vs where "build_values e 0 logs = Inr vs"
    and "p = [\<lparr>stream_labels = lb, stream_values = vs\<rparr>]" by blast
  then show "\<forall>s\<in>set p. length (stream_values s) = length logs"
    by (simp add: build_values_length)
next
  assume a: "BackendPost u p \<in> set (snd (receive_logs cfg e req))"
  obtain logs labels where eq: "filter is_post (snd (receive_logs cfg e req)) =
     filter is_post (snd (push_to_loki cfg e logs labels))"
    using receive_logs_posts_push by blast
  from a have "BackendPost u p \<in> set (filter is_post (snd (receive_logs cfg e req)))"
    by (rule posts_filterI)
  then have "BackendPost u p \<in> set (filter is_post (snd (push_to_loki cfg e logs labels)))"
    by (simp only: eq)
  then have b: "BackendPost u p \<in> set (snd (push_to_loki cfg e logs labels))"
    by (rule posts_filterD)
  from push_posts [OF b] obtain lb vs where "logs \<noteq> []" and "build_values e 0 logs = Inr vs"
    and "p = [\<lparr>stream_labels = lb, stream_values = vs\<rparr>]" by blast
  then show "\<forall>s\<in>set p. stream_values s \<noteq> []"
    using build_values_length [of e 0 logs vs] by auto
qed

theorem no_push_without_records_witness:
  "push_to_loki sample_cfg sample_env [] None = (Inr True, []) \<and>
   fst (receive_logs sample_cfg sample_env (post_request [0x0A, 0x0A])) =
     (JObj [(''status'', JStr ''ok''), (''processed'', JInt 0)], 200) \<and>
   filter is_post (snd (receive_logs sample_cfg sample_env (post_request [0x0A, 0x0A]))) = [] \<and>
   BackendPost (push_url sample_cfg) (one_stream sample_env default_labels [JObj []])
     \<in> set (snd (receive_logs sample_cfg sample_env (post_request [0x7B, 0x7D]))) \<and>
   list_all (\<lambda>s. stream_values s \<noteq> []) (one_stream sample_env default_labels [JObj []])"
proof -
  note t = no_push_without_records [of sample_cfg sample_env None "post_request [0x0A, 0x0A]"]
  from t have 1: "push_to_loki sample_cfg sample_env [] None = (Inr True, [])" by blast
  from t [THEN conjunct2, THEN conjunct1] sample_parses_blank
  have 2: "fst (receive_logs sample_cfg sample_env (post_request [0x0A, 0x0A])) =
     (JObj [(''status'', JStr ''ok''), (''processed'', JInt 0)], 200) \<and>
   filter is_post (snd (receive_logs sample_cfg sample_env (post_request [0x0A, 0x0A]))) = []"
    by blast
  have d: "derive_labels (JObj []) = Inr default_labels"
    by (simp add: derive_labels_def)
  have "filter is_post (snd (push_to_loki sample_cfg sample_env [JObj []] (Some default_labels))) =
      [BackendPost (push_url sample_cfg) (one_stream sample_env default_labels [JObj []])]"
    by (simp add: push_to_loki_objects post_payload_posts)
  with receive_logs_parsed [OF sample_env_parses_object] forward_logs_posts [OF d, of sample_cfg sample_env "[]"]
  have "filter is_post (snd (receive_logs sample_cfg sample_env (post_request [0x7B, 0x7D]))) =
      [BackendPost (push_url sample_cfg) (one_stream sample_env default_labels [JObj []])]"
    by simp
  then have "BackendPost (push_url sample_cfg) (one_stream sample_env default_labels [JObj []])
     \<in> set (filter is_post (snd (receive_logs sample_cfg sample_env (post_request [0x7B, 0x7D]))))"
    by simp
  then have 3: "BackendPost (push_url sample_cfg) (one_stream sample_env default_labels [JObj []])
     \<in> set (snd (receive_logs sample_cfg sample_env (post_request [0x7B, 0x7D])))"
    by (rule posts_filterD)
  from no_push_without_records [of sample_cfg sample_env None "post_request [0x7B, 0x7D]"
      "push_url sample_cfg" "one_stream sample_env default_labels [JObj []]",
      THEN conjunct2, THEN conjunct2, THEN conjunct2] 3
  have 4: "list_all (\<lambda>s. stream_values s \<noteq> []) (one_stream sample_env default_labels [JObj []])"
    by (simp add: list_all_iff)
  from 1 2 3 4 show ?thesis by blast
qed

subsection \<open>A first record that is not a container\<close>

text \<open>
  C10. When the parser collects a batch whose first record is a number, a boolean or
  null, the membership test of the label derivation raises \<open>TypeError\<close>; the outer
  handler answers 500 with the text of the exception and nothing is posted.
\<close>

theorem scalar_first_record:
  "parses_to cfg e req (r # rs) \<Longrightarrow> is_scalar r \<Longrightarrow>
   derive_labels r = Inl (TypeError r) \<and>
   fst (receive_logs cfg e req) = error_response (exc_str e (TypeError r)) 500 \<and>
   snd (fst (receive_logs cfg e req)) = 500 \<and>
   filter is_post (snd (receive_logs cfg e req)) = []"
proof -
  assume a: "parses_to cfg e req (r # rs)" and s: "is_scalar r"
  from s have d: "derive_labels r = Inl (TypeError r)"
    by (cases r) (simp_all add: derive_labels_def)
  then have f: "forward_logs cfg e (r # rs) = (Inl (TypeError r), [])"
    by (simp add: forward_logs_def)
  from receive_logs_parsed [OF a]
  have 1: "fst (receive_logs cfg e req) = error_response (exc_str e (TypeError r)) 500"
    and 2: "filter is_post (snd (receive_logs cfg e req)) = []"
    by (simp_all add: f catch_all_Inl)
  from 1 have "snd (fst (receive_logs cfg e req)) = 500" by (simp add: error_response_def)
  with d 1 2 show ?thesis by simp
qed

theorem scalar_first_record_witness:
  "fst (receive_logs sample_cfg sample_env (post_request [0x37])) =
     error_response ''argument is not iterable'' 500 \<and>
   filter is_post (snd (receive_logs sample_cfg sample_env (post_request [0x37]))) = []"
proof -
  have s: "is_scalar (JInt 7)" by simp
  have x: "exc_str sample_env (TypeError (JInt 7)) = ''argument is not iterable''"
    by (simp add: sample_env_def)
  from scalar_first_record [OF sample_parses_scalar s] show ?thesis
    by (simp only: x)
qed

subsection \<open>Lines of a serialized batch\<close>

lemma strip_clean:
  "l \<noteq> [] \<Longrightarrow> \<not> py_isspace (hd l) \<Longrightarrow> \<not> py_isspace (last l) \<Longrightarrow> strip l = l"
proof -
  assume ne: "l \<noteq> []" and h: "\<not> py_isspace (hd l)" and t: "\<not> py_isspace (last l)"
  from ne t have "dropWhile py_isspace (rev l) = rev l"
    by (cases "rev l") (auto simp: last_rev hd_rev [symmetric])
  then have r: "rstrip l = l" by (simp add: rstrip_def)
  from ne h have "lstrip l = l" by (cases l) (simp_all add: lstrip_def)
  with r show ?thesis by (simp add: strip_def)
qed

lemma split_nl_line:
  "newline \<notin> set l \<Longrightarrow> split_nl (l @ newline # rest) = l # split_nl rest"
  by (induction l) (auto split: list.splits)

lemma split_nl_ndjson:
  "\<forall>r\<in>set rs. newline \<notin> set (json_dumps e r) \<Longrightarrow>
   split_nl (ndjson e rs) = map (json_dumps e) rs @ [[]]"
proof (induction rs)
  case Nil
  show ?case by (simp add: ndjson_def)
next
  case (Cons r rs)
  then have n: "newline \<notin> set (json_dumps e r)"
    and IH: "split_nl (ndjson e rs) = map (json_dumps e) rs @ [[]]" by simp_all
  have "ndjson e (r # rs) = json_dumps e r @ newline # ndjson e rs"
    by (simp add: ndjson_def)
  with split_nl_line [OF n, of "ndjson e rs"] IH show ?case by simp
qed

lemma nonblank_clean:
  "\<forall>l\<in>set ls. strip l = l \<and> l \<noteq> [] \<Longrightarrow> nonblank (ls @ [[]]) = ls"
  by (induction ls) (simp_all add: nonblank_def strip_Nil)

lemma nonblank_ndjson:
  "\<forall>r\<in>set rs. dumps_roundtrip e r \<Longrightarrow>
   nonblank (split_nl (ndjson e rs)) = map (json_dumps e) rs"
proof -
  assume a: "\<forall>r\<in>set rs. dumps_roundtrip e r"
  then have "\<forall>r\<in>set rs. newline \<notin> set (json_dumps e r)"
    by (simp add: dumps_roundtrip_def)
  then have s: "split_nl (ndjson e rs) = map (json_dumps e) rs @ [[]]"
    by (rule split_nl_ndjson)
  from a have "\<forall>l\<in>set (map (json_dumps e) rs). strip l = l \<and> l \<noteq> []"
    by (auto simp: dumps_roundtrip_def strip_clean)
  then have "nonblank (map (json_dumps e) rs @ [[]]) = map (json_dumps e) rs"
    by (rule nonblank_clean)
  with s show ?thesis by simp
qed

lemma parsed_of_dumps:
  "\<forall>r\<in>set rs. json_loads e (json_dumps e r) = Inr r \<Longrightarrow>
   parsed_of e (map (json_dumps e) rs) = rs"
  by (induction rs) (simp_all add: parsed_of_Nil parsed_of_Cons)

lemma parse_ndjson_roundtrip:
  "\<forall>r\<in>set rs. dumps_roundtrip e r \<Longrightarrow> fst (parse_ndjson e (ndjson e rs)) = Inr rs"
proof -
  assume a: "\<forall>r\<in>set rs. dumps_roundtrip e r"
  note nb = nonblank_ndjson [OF a]
  from a have l: "\<forall>r\<in>set rs. json_loads e (json_dumps e r) = Inr r"
    by (simp add: dumps_roundtrip_def)
  then have "\<forall>l\<in>set (map (json_dumps e) rs). decode_errors_only e l"
    by (auto simp: decode_errors_only_def)
  then have "\<forall>l\<in>set (nonblank (split_nl (ndjson e rs))). decode_errors_only e l"
    by (simp only: nb)
  then have "fst (parse_ndjson e (ndjson e rs)) = Inr (spec_parse e (ndjson e rs))"
    by (rule parse_ndjson_eq_spec)
  then show ?thesis
    by (simp only: spec_parse_def nb parsed_of_dumps [OF l])
qed

lemma decode_body_gzip:
  "gzip_decompress e d = Inr raw \<Longrightarrow> utf8_decode e raw = Inr text \<Longrightarrow>
   decode_body e d = (Inr text, [])"
  by (simp add: decode_body_def)

lemma decode_body_plain:
  "gzip_decompress e d = Inl x \<Longrightarrow> fst (decode_body e d) = utf8_decode e d"
  by (cases x) (simp_all add: decode_body_def decode_raw_def)

lemma same_text_same_outcome:
  "d \<noteq> [] \<Longrightarrow> d' \<noteq> [] \<Longrightarrow> fst (decode_body e d) = Inr text \<Longrightarrow>
   fst (decode_body e d') = Inr text \<Longrightarrow>
   fst (process_body cfg e d) = fst (process_body cfg e d') \<and>
   filter is_post (snd (process_body cfg e d)) = filter is_post (snd (process_body cfg e d'))"
  by (simp add: process_body_decoded decode_body_posts)

lemma unauthorized_data: "unauthorized cfg (req\<lparr>req_data := d\<rparr>) = unauthorized cfg req"
  by (simp add: unauthorized_def)

lemma receive_logs_same_outcome:
  "fst (process_body cfg e d) = fst (process_body cfg e d') \<Longrightarrow>
   fst (receive_logs cfg e (req\<lparr>req_data := d\<rparr>)) = fst (receive_logs cfg e (req\<lparr>req_data := d'\<rparr>))"
  by (simp add: receive_logs_def unauthorized_data fst_catch_all)

lemma parse_ndjson_newline: "parse_ndjson e (t @ [newline]) = parse_ndjson e t"
  by (simp add: parse_ndjson_def strip_snoc isspace_newline)

lemma parse_ndjson_roundtrip_lines:
  "\<forall>r\<in>set rs. dumps_roundtrip e r \<Longrightarrow>
   text = ndjson e rs \<or> text @ [newline] = ndjson e rs \<Longrightarrow>
   fst (parse_ndjson e text) = Inr rs"
proof -
  assume a: "\<forall>r\<in>set rs. dumps_roundtrip e r"
    and t: "text = ndjson e rs \<or> text @ [newline] = ndjson e rs"
  from t have "parse_ndjson e text = parse_ndjson e (ndjson e rs)"
  proof
    assume "text = ndjson e rs"
    then show ?thesis by simp
  next
    assume "text @ [newline] = ndjson e rs"
    then have "parse_ndjson e (ndjson e rs) = parse_ndjson e (text @ [newline])" by simp
    then show ?thesis by (simp only: parse_ndjson_newline)
  qed
  with parse_ndjson_roundtrip [OF a] show ?thesis by simp
qed

subsection \<open>The round trip\<close>

text \<open>
  C9. Let a sequence of records be serialized as NDJSON, one line for each record (the
  last line with or without its newline), with a \<open>json\<close> whose \<open>loads\<close>
  inverts \<open>dumps\<close> on them, and let \<open>gz\<close> be a gzip body that decompresses to
  the bytes \<open>raw\<close> of that text. Then decoding \<open>gz\<close> gives the text and parsing
  the text gives the records back, in order. When the same bytes \<open>raw\<close> are sent as
  they are (they are not a gzip stream), decoding them gives the same text, and from there
  on the view does the same: the same outcome of the pipeline, the same posts and the same
  response.
\<close>

theorem gzip_roundtrip:
  "\<forall>r\<in>set rs. dumps_roundtrip e r \<Longrightarrow>
   text = ndjson e rs \<or> text @ [newline] = ndjson e rs \<Longrightarrow>
   gzip_decompress e gz = Inr raw \<Longrightarrow> utf8_decode e raw = Inr text \<Longrightarrow>
   fst (decode_body e gz) = Inr text \<and>
   fst (parse_ndjson e text) = Inr rs \<and>
   ((\<exists>x. gzip_decompress e raw = Inl x) \<longrightarrow>
      fst (decode_body e raw) = Inr text \<and>
      (gz \<noteq> [] \<and> raw \<noteq> [] \<longrightarrow>
         fst (process_body cfg e raw) = fst (process_body cfg e gz) \<and>
         filter is_post (snd (process_body cfg e raw)) = filter is_post (snd (process_body cfg e gz)) \<and>
         fst (receive_logs cfg e (req\<lparr>req_data := raw\<rparr>)) =
           fst (receive_logs cfg e (req\<lparr>req_data := gz\<rparr>))))"
proof -
  assume a: "\<forall>r\<in>set rs. dumps_roundtrip e r"
    and t: "text = ndjson e rs \<or> text @ [newline] = ndjson e rs"
    and g: "gzip_decompress e gz = Inr raw" and u: "utf8_decode e raw = Inr text"
  have 1: "fst (decode_body e gz) = Inr text"
    by (simp add: decode_body_gzip [OF g u])
  have 2: "fst (parse_ndjson e text) = Inr rs"
    using a t by (rule parse_ndjson_roundtrip_lines)
  have 3: "(\<exists>x. gzip_decompress e raw = Inl x) \<longrightarrow>
      fst (decode_body e raw) = Inr text \<and>
      (gz \<noteq> [] \<and> raw \<noteq> [] \<longrightarrow>
         fst (process_body cfg e raw) = fst (process_body cfg e gz) \<and>
         filter is_post (snd (process_body cfg e raw)) = filter is_post (snd (process_body cfg e gz)) \<and>
         fst (receive_logs cfg e (req\<lparr>req_data := raw\<rparr>)) =
           fst (receive_logs cfg e (req\<lparr>req_data := gz\<rparr>)))"
  proof (intro impI conjI)
    assume "\<exists>x. gzip_decompress e raw = Inl x"
    then obtain x where x: "gzip_decompress e raw = Inl x" ..
    show p: "fst (decode_body e raw) = Inr text"
      by (simp only: decode_body_plain [OF x] u)
    assume ne: "gz \<noteq> [] \<and> raw \<noteq> []"
    then have n1: "raw \<noteq> []" and n2: "gz \<noteq> []" by simp_all
    note so = same_text_same_outcome [OF n1 n2 p 1, of cfg]
    from so show pb: "fst (process_body cfg e raw) = fst (process_body cfg e gz)" ..
    from so show "filter is_post (snd (process_body cfg e raw)) = filter is_post (snd (process_body cfg e gz))" ..
    from pb show "fst (receive_logs cfg e (req\<lparr>req_data := raw\<rparr>)) =
           fst (receive_logs cfg e (req\<lparr>req_data := gz\<rparr>))"
      by (rule receive_logs_same_outcome)
  qed
  from 1 2 3 show ?thesis by blast
qed

theorem gzip_roundtrip_witness:
  "fst (decode_body sample_env sample_gz) = Inr sample_text \<and>
   fst (parse_ndjson sample_env sample_text) = Inr [JObj [], JInt 7] \<and>
   fst (decode_body sample_env sample_plain) = Inr sample_text \<and>
   fst (receive_logs sample_cfg sample_env (post_request sample_plain)) =
     fst (receive_logs sample_cfg sample_env (post_request sample_gz))"
proof -
  have n: "sample_text = ndjson sample_env [JObj [], JInt 7] \<or>
      sample_text @ [newline] = ndjson sample_env [JObj [], JInt 7]"
    by (simp add: ndjson_def sample_text_def sample_env_def sample_dumps_def)
  have a: "\<forall>r\<in>set [JObj [], JInt 7]. dumps_roundtrip sample_env r"
    by (simp add: dumps_roundtrip_def sample_env_def sample_dumps_def sample_loads_def
        py_isspace_def newline_def)
  have g: "gzip_decompress sample_env sample_gz = Inr sample_plain"
    by (simp add: sample_env_def sample_gunzip_def sample_gz_def)
  have u: "utf8_decode sample_env sample_plain = Inr sample_text"
    by code_simp
  have x: "\<exists>x. gzip_decompress sample_env sample_plain = Inl x"
    by (simp add: sample_env_def sample_gunzip_def sample_plain_def)
  have ne: "sample_gz \<noteq> [] \<and> sample_plain \<noteq> []"
    by (simp add: sample_gz_def sample_plain_def)
  have r: "post_request d = (post_request [])\<lparr>req_data := d\<rparr>" for d
    by (simp add: post_request_def)
  note t = gzip_roundtrip [OF a n g u, of sample_cfg "post_request []"]
  from t x ne show ?thesis
    by (simp only: r [of sample_plain] r [of sample_gz]) blast
qed

subsection \<open>The timestamp of a record\<close>

text \<open>
  What the view decides of a timestamp: a parsed string gives \<open>iso_ns\<close>, everything
  else a reading of the clock.
\<close>

lemma ts_ns_parsed:
  "s \<noteq> [] \<Longrightarrow> iso_ns e (replace_Z s) = Some n \<Longrightarrow> ts_ns e i (Some (JStr s)) = str_int n"
  by (simp add: ts_ns_def)

lemma ts_ns_unparsed:
  "iso_ns e (replace_Z s) = None \<Longrightarrow> ts_ns e i (Some (JStr s)) = str_int (clock_ns e i)"
  by (simp add: ts_ns_def now_str_def)

lemma ts_ns_absent: "ts_ns e i None = str_int (clock_ns e i)"
  by (simp add: ts_ns_def now_str_def)

lemma ts_ns_not_str:
  "\<forall>s. t \<noteq> JStr s \<Longrightarrow> ts_ns e i (Some t) = str_int (clock_ns e i)"
  by (cases t) (simp_all add: ts_ns_def now_str_def)

subsection \<open>Doubles that hold their value\<close>

lemma bits_upper: "n < 2 ^ bits n"
proof (induction n rule: bits.induct)
  case (1 n)
  show ?case
  proof (cases "n = 0")
    case True
    then show ?thesis by (simp add: bits.simps)
  next
    case False
    with 1 have "n div 2 < 2 ^ bits (n div 2)" by simp
    then have "n < 2 * 2 ^ bits (n div 2)" by linarith
    with False show ?thesis by (simp add: bits.simps [of n])
  qed
qed

lemma bits_lower: "0 < n \<Longrightarrow> 2 ^ (bits n - 1) \<le> n"
proof (induction n rule: bits.induct)
  case (1 n)
  show ?case
  proof (cases "n div 2 = 0")
    case True
    with 1 have "n = 1" by linarith
    then show ?thesis by (simp add: bits.simps)
  next
    case False
    with 1 have IH: "2 ^ (bits (n div 2) - 1) \<le> n div 2" by simp
    from False have "0 < bits (n div 2)" by (simp add: bits.simps [of "n div 2"])
    then have "bits n - 1 = Suc (bits (n div 2) - 1)"
      using 1 by (simp add: bits.simps [of n])
    with IH show ?thesis by simp
  qed
qed

lemma bits_pos: "0 < n \<Longrightarrow> 0 < bits n"
  by (simp add: bits.simps [of n])

lemma floor_log2_lower:
  assumes a: "0 < a" and b: "0 < b" and f: "0 \<le> floor_log2 a b"
  shows "b * 2 ^ nat (floor_log2 a b) \<le> a"
proof -
  define k where "k = int (bits a) - int (bits b)"
  define t where "t = (if 0 \<le> k then b * 2 ^ nat k \<le> a else b \<le> a * 2 ^ nat (- k))"
  have fl_eq: "floor_log2 a b = (if t then k else k - 1)"
    by (simp only: floor_log2_def Let_def k_def t_def)
  show ?thesis
  proof (cases t)
    case True
    then have fl: "floor_log2 a b = k" by (simp only: fl_eq if_True)
    with f have k0: "0 \<le> k" by simp
    with True have "b * 2 ^ nat k \<le> a" by (simp only: t_def if_True)
    with fl show ?thesis by simp
  next
    case False
    then have fl: "floor_log2 a b = k - 1" by (simp only: fl_eq if_False)
    with f have k1: "1 \<le> k" by simp
    then have ba: "bits a = bits b + nat k" by (simp add: k_def)
    have "b < 2 ^ bits b" by (rule bits_upper)
    then have "b * 2 ^ nat (k - 1) < 2 ^ bits b * 2 ^ nat (k - 1)" by simp
    also have "\<dots> = 2 ^ (bits b + nat (k - 1))" by (simp add: power_add)
    also have "bits b + nat (k - 1) = bits a - 1" using ba k1 by (simp add: nat_diff_distrib)
    finally have "b * 2 ^ nat (k - 1) < 2 ^ (bits a - 1)" .
    with bits_lower [OF a] fl show ?thesis by simp
  qed
qed

lemma round_half_even_exact: "0 < den \<Longrightarrow> round_half_even (q * den) den = q"
  by (simp add: round_half_even_def)

lemma to_double_exact:
  assumes b: "0 < b" and c: "0 < c" and c53: "c < 2 ^ 53"
  shows "\<exists>d>0. to_double (c * 2 ^ j * b) b = (c * 2 ^ j * d, d)"
proof -
  define a where "a = c * 2 ^ j * b"
  define e where "e = floor_log2 a b - 52"
  from b c have a0: "0 < a" by (simp add: a_def)
  show ?thesis
  proof (cases "0 \<le> e")
    case True
    then have f: "0 \<le> floor_log2 a b" and nf: "nat (floor_log2 a b) = nat e + 52"
      by (simp_all add: e_def)
    from floor_log2_lower [OF a0 b f] have "b * 2 ^ (nat e + 52) \<le> a"
      by (simp only: nf)
    then have "2 ^ (nat e + 52) * b \<le> (c * 2 ^ j) * b"
      by (simp only: a_def mult.commute [of b])
    with b have "(2::nat) ^ (nat e + 52) \<le> c * 2 ^ j" by simp
    also from c53 have "c * 2 ^ j < 2 ^ 53 * 2 ^ j" by simp
    finally have "(2::nat) ^ (nat e + 52) < 2 ^ (53 + j)" by (simp add: power_add)
    then have "nat e + 52 < 53 + j" by (simp only: power_strict_increasing_iff)
    then have ej: "nat e \<le> j" by simp
    then obtain i where j: "j = nat e + i" using le_Suc_ex by blast
    have "a = (c * 2 ^ i) * (b * 2 ^ nat e)" by (simp add: a_def j power_add)
    moreover from b have "0 < b * 2 ^ nat e" by simp
    ultimately have "round_half_even a (b * 2 ^ nat e) = c * 2 ^ i"
      by (simp only: round_half_even_exact)
    then have "round_half_even a (b * 2 ^ nat e) * 2 ^ nat e = c * 2 ^ j"
      by (simp add: j power_add)
    with True a0 have "to_double a b = (c * 2 ^ j * 1, 1)"
      by (simp add: to_double_def e_def Let_def)
    then show ?thesis unfolding a_def by blast
  next
    case False
    have "a * 2 ^ nat (- e) = (c * 2 ^ j * 2 ^ nat (- e)) * b" by (simp add: a_def)
    with b have "round_half_even (a * 2 ^ nat (- e)) b = c * 2 ^ j * 2 ^ nat (- e)"
      by (simp only: round_half_even_exact)
    with False a0 have "to_double a b = (c * 2 ^ j * 2 ^ nat (- e), 2 ^ nat (- e))"
      by (simp add: to_double_def e_def Let_def)
    moreover have "(0::nat) < 2 ^ nat (- e)" by simp
    ultimately show ?thesis unfolding a_def by blast
  qed
qed

lemma double_ns_nat_whole:
  assumes n: "n * 1953125 < 2 ^ 53"
  shows "double_ns_nat (n * 1000000) = n * 1000000000"
proof (cases "n = 0")
  case True
  then show ?thesis by (simp add: double_ns_nat_def to_double_def)
next
  case False
  then have n0: "0 < n" by simp
  from n have n53: "n < 2 ^ 53" by simp
  from to_double_exact [OF _ n0 n53, of 1000000 0]
  obtain d1 where d1: "0 < d1" and t1: "to_double (n * 1000000) 1000000 = (n * d1, d1)"
    by auto
  from n0 have c0: "0 < n * 1953125" by simp
  from to_double_exact [OF d1 c0 n, of 9]
  obtain d2 where d2: "0 < d2" and t2: "to_double (n * 1953125 * 2 ^ 9 * d1) d1 = (n * 1953125 * 2 ^ 9 * d2, d2)"
    by auto
  have eq1: "n * 1953125 * 2 ^ 9 * d1 = n * d1 * 1000000000" by simp
  have eq2: "n * 1953125 * 2 ^ 9 * d2 = n * 1000000000 * d2" by simp
  from t2 have t3: "to_double (n * d1 * 1000000000) d1 = (n * 1000000000 * d2, d2)"
    by (simp only: eq1 eq2)
  from d2 have "n * 1000000000 * d2 div d2 = n * 1000000000" by simp
  then show ?thesis by (simp only: double_ns_nat_def t1 t3 prod.case)
qed

lemma double_ns_whole:
  "0 \<le> s \<Longrightarrow> s * 1953125 < 2 ^ 53 \<Longrightarrow> double_ns (s * 1000000) = s * 1000000000"
proof -
  assume s: "0 \<le> s" and b: "s * 1953125 < 2 ^ 53"
  from s b have "nat s * 1953125 < 2 ^ 53" by (simp add: nat_less_iff nat_mult_distrib)
  then have "double_ns_nat (nat s * 1000000) = nat s * 1000000000" by (rule double_ns_nat_whole)
  moreover from s have "nat (s * 1000000) = nat s * 1000000" by (simp add: nat_mult_distrib)
  ultimately show ?thesis using s by (simp add: double_ns_def)
qed

lemma parse_stamp_Nil: "parse_stamp [] = None"
  by (simp add: parse_stamp_def number_def)

lemma replace_Z_Nil_iff: "replace_Z s = [] \<longleftrightarrow> s = []"
  by (cases s) (simp_all add: replace_Z_def)

lemma ts_ns_agrees:
  "library_agrees e \<Longrightarrow> parse_stamp (replace_Z s) = Some f \<Longrightarrow> valid_stamp f \<Longrightarrow>
   ts_ns e i (Some (JStr s)) = str_int (double_ns (epoch_micros f))"
proof -
  assume a: "library_agrees e" and p: "parse_stamp (replace_Z s) = Some f" and v: "valid_stamp f"
  from p have "replace_Z s \<noteq> []" using parse_stamp_Nil by auto
  then have s: "s \<noteq> []" by (simp add: replace_Z_Nil_iff)
  from a p v have "iso_ns e (replace_Z s) = Some (double_ns (epoch_micros f))"
    unfolding library_agrees_def by blast
  with s show ?thesis by (rule ts_ns_parsed)
qed

lemma library_agrees_float: "library_agrees float_env"
  by (simp add: library_agrees_def float_env_def model_iso_def)

lemma replace_Z_example: "replace_Z ''2024-01-01T00:00:00Z'' = ''2024-01-01T00:00:00+00:00''"
  by (simp add: replace_Z_def)

lemma parse_stamp_example:
  "parse_stamp ''2024-01-01T00:00:00+00:00'' = Some (micro_stamp\<lparr>st_micro := 0\<rparr>)"
  by (simp add: parse_stamp_def parse_fraction_def number_def is_digit_def digits_val_def
      micro_stamp_def)

lemma valid_example: "valid_stamp (micro_stamp\<lparr>st_micro := u\<rparr>)"
  by (simp add: valid_stamp_def micro_stamp_def days_in_month_def)

lemma epoch_seconds_example: "epoch_seconds (micro_stamp\<lparr>st_micro := u\<rparr>) = 1704067200"
  by (simp add: epoch_seconds_def ordinal_def offset_seconds_def days_in_month_def micro_stamp_def)

subsection \<open>The timestamp, through the float product\<close>

text \<open>
  C6, as the code has it. Let the library read the timestamps of the model as the model
  does. For a record that is an object, the loop pairs its serialization with a timestamp
  that is: a reading of the clock, in nanoseconds, when the field is absent, when it is
  not a string, and when the string does not parse; and for a string that parses (a
  \<open>Z\<close> read as \<open>+00:00\<close>) the decimal string of \<open>int(dt.timestamp() * 1e9)\<close>,
  the nanoseconds as the double holds them. That is the exact number of nanoseconds
  since the epoch when the timestamp has whole seconds (from 1970 until the product
  leaves 53 bits, in 2116): in particular \<open>2024-01-01T00:00:00Z\<close> gives
  \<open>1704067200000000000\<close>.
\<close>

theorem timestamp_of_record:
  "library_agrees e \<Longrightarrow>
   build_values e i [JObj kvs] =
     Inr [(ts_ns e i (map_of kvs ''EdgeStartTimestamp''), json_dumps e (JObj kvs))] \<and>
   ts_ns e i None = str_int (clock_ns e i) \<and>
   ((\<forall>s. t \<noteq> JStr s) \<longrightarrow> ts_ns e i (Some t) = str_int (clock_ns e i)) \<and>
   (iso_ns e (replace_Z s) = None \<longrightarrow> ts_ns e i (Some (JStr s)) = str_int (clock_ns e i)) \<and>
   (parse_stamp (replace_Z s) = Some f \<and> valid_stamp f \<longrightarrow>
      ts_ns e i (Some (JStr s)) = str_int (double_ns (epoch_micros f))) \<and>
   (parse_stamp (replace_Z s) = Some f \<and> valid_stamp f \<and> st_micro f = 0 \<and>
    0 \<le> epoch_seconds f \<and> epoch_seconds f * 1953125 < 2 ^ 53 \<longrightarrow>
      ts_ns e i (Some (JStr s)) = str_int (epoch_seconds f * 1000000000)) \<and>
   ts_ns e i (Some (JStr ''2024-01-01T00:00:00Z'')) = ''1704067200000000000''"
proof -
  assume a: "library_agrees e"
  have 1: "build_values e i [JObj kvs] =
     Inr [(ts_ns e i (map_of kvs ''EdgeStartTimestamp''), json_dumps e (JObj kvs))]"
    by simp
  have 2: "ts_ns e i None = str_int (clock_ns e i)" by (rule ts_ns_absent)
  have 3: "(\<forall>s. t \<noteq> JStr s) \<longrightarrow> ts_ns e i (Some t) = str_int (clock_ns e i)"
    by (simp add: ts_ns_not_str)
  have 4: "iso_ns e (replace_Z s) = None \<longrightarrow> ts_ns e i (Some (JStr s)) = str_int (clock_ns e i)"
    by (simp add: ts_ns_unparsed)
  have 5: "parse_stamp (replace_Z s) = Some f \<and> valid_stamp f \<longrightarrow>
      ts_ns e i (Some (JStr s)) = str_int (double_ns (epoch_micros f))"
    using ts_ns_agrees [OF a] by blast
  have whole: "ts_ns e i (Some (JStr s')) = str_int (epoch_seconds f' * 1000000000)"
    if p: "parse_stamp (replace_Z s') = Some f'" and v: "valid_stamp f'" and m: "st_micro f' = 0"
      and n: "0 \<le> epoch_seconds f'" and b: "epoch_seconds f' * 1953125 < 2 ^ 53" for s' f'
  proof -
    from m have "epoch_micros f' = epoch_seconds f' * 1000000" by (simp add: epoch_micros_def)
    with double_ns_whole [OF n b] have "double_ns (epoch_micros f') = epoch_seconds f' * 1000000000"
      by simp
    with ts_ns_agrees [OF a p v, of i] show ?thesis by simp
  qed
  then have 6: "parse_stamp (replace_Z s) = Some f \<and> valid_stamp f \<and> st_micro f = 0 \<and>
    0 \<le> epoch_seconds f \<and> epoch_seconds f * 1953125 < 2 ^ 53 \<longrightarrow>
      ts_ns e i (Some (JStr s)) = str_int (epoch_seconds f * 1000000000)"
    by blast
  have "ts_ns e i (Some (JStr ''2024-01-01T00:00:00Z'')) =
      str_int (epoch_seconds (micro_stamp\<lparr>st_micro := 0\<rparr>) * 1000000000)"
  proof (rule whole)
    show "parse_stamp (replace_Z ''2024-01-01T00:00:00Z'') = Some (micro_stamp\<lparr>st_micro := 0\<rparr>)"
      by (simp only: replace_Z_example parse_stamp_example)
    show "valid_stamp (micro_stamp\<lparr>st_micro := 0\<rparr>)" by (rule valid_example)
    show "st_micro (micro_stamp\<lparr>st_micro := 0\<rparr>) = 0" by simp
    show "0 \<le> epoch_seconds (micro_stamp\<lparr>st_micro := 0\<rparr>)" by (simp add: epoch_seconds_example)
    show "epoch_seconds (micro_stamp\<lparr>st_micro := 0\<rparr>) * 1953125 < 2 ^ 53"
      by (simp add: epoch_seconds_example)
  qed
  then have 7: "ts_ns e i (Some (JStr ''2024-01-01T00:00:00Z'')) = ''1704067200000000000''"
    by (simp add: epoch_seconds_example str_int_stamp)
  from 1 2 3 4 5 6 7 show ?thesis by blast
qed

theorem timestamp_of_record_witness:
  "ts_ns float_env 0 (Some (JStr ''2024-01-01T00:00:00Z'')) = ''1704067200000000000'' \<and>
   ts_ns float_env 3 None = ''1700000000000000003'' \<and>
   ts_ns float_env 3 (Some (JInt 5)) = ''1700000000000000003'' \<and>
   ts_ns float_env 3 (Some (JStr ''yesterday'')) = ''1700000000000000003''"
proof -
  have c: "str_int (clock_ns float_env 3) = ''1700000000000000003''"
    by (simp add: float_env_def sample_env_def sample_clock_def str_int_def str_nat.simps digit_char_def)
  have n: "iso_ns float_env (replace_Z ''yesterday'') = None"
    by (simp add: float_env_def model_iso_def replace_Z_def parse_stamp_def number_def is_digit_def)
  have j: "\<forall>s. JInt 5 \<noteq> JStr s" by simp
  note t = timestamp_of_record [OF library_agrees_float]
  from t [where i = 0] have 1: "ts_ns float_env 0 (Some (JStr ''2024-01-01T00:00:00Z'')) = ''1704067200000000000''"
    by blast
  from t [where i = 3] have "ts_ns float_env 3 None = str_int (clock_ns float_env 3)"
    by blast
  then have 2: "ts_ns float_env 3 None = ''1700000000000000003''"
    by (simp only: c)
  from t [where i = 3 and t = "JInt 5"] j
  have "ts_ns float_env 3 (Some (JInt 5)) = str_int (clock_ns float_env 3)"
    by blast
  then have 3: "ts_ns float_env 3 (Some (JInt 5)) = ''1700000000000000003''"
    by (simp only: c)
  from t [where i = 3 and s = "''yesterday''"] n
  have "ts_ns float_env 3 (Some (JStr ''yesterday'')) = str_int (clock_ns float_env 3)"
    by blast
  then have 4: "ts_ns float_env 3 (Some (JStr ''yesterday'')) = ''1700000000000000003''"
    by (simp only: c)
  from 1 2 3 4 show ?thesis by blast
qed

text \<open>
  C6 as stated fails on a timestamp with microseconds: \<open>2024-01-01T00:00:00.000001Z\<close>
  is 1704067200000001000 nanoseconds after the epoch, and the product of the doubles
  gives \<open>1704067200000001024\<close>.
\<close>

theorem microsecond_not_exact:
  "parse_stamp (replace_Z ''2024-01-01T00:00:00.000001Z'') = Some micro_stamp \<and>
   valid_stamp micro_stamp \<and>
   str_int (epoch_micros micro_stamp * 1000) = ''1704067200000001000'' \<and>
   ts_ns float_env 0 (Some (JStr ''2024-01-01T00:00:00.000001Z'')) = ''1704067200000001024'' \<and>
   build_values float_env 0 [micro_record] =
     Inr [(''1704067200000001024'', json_dumps float_env micro_record)]"
proof -
  have r: "replace_Z ''2024-01-01T00:00:00.000001Z'' = ''2024-01-01T00:00:00.000001+00:00''"
    by (simp add: replace_Z_def)
  have p: "parse_stamp ''2024-01-01T00:00:00.000001+00:00'' = Some micro_stamp"
    by (simp add: parse_stamp_def parse_fraction_def number_def is_digit_def digits_val_def
        micro_stamp_def)
  have v: "valid_stamp micro_stamp"
    using valid_example [of 1] by (simp add: micro_stamp_def)
  have m: "epoch_micros micro_stamp = 1704067200000001"
    using epoch_seconds_example [of 1] by (simp add: epoch_micros_def micro_stamp_def)
  have x: "str_int (epoch_micros micro_stamp * 1000) = ''1704067200000001000''"
    by (simp add: m str_int_def str_nat.simps digit_char_def)
  have d: "double_ns 1704067200000001 = 1704067200000001024"
    by (simp add: double_ns_def double_ns_nat_def to_double_def floor_log2_def bits.simps
        round_half_even_def Let_def)
  have s: "str_int 1704067200000001024 = ''1704067200000001024''"
    by (simp add: str_int_def str_nat.simps digit_char_def)
  have t: "ts_ns float_env 0 (Some (JStr ''2024-01-01T00:00:00.000001Z'')) = ''1704067200000001024''"
    using ts_ns_agrees [OF library_agrees_float, of "''2024-01-01T00:00:00.000001Z''" micro_stamp 0]
    by (simp only: r p v m d s)
  have b: "build_values float_env 0 [micro_record] =
     Inr [(''1704067200000001024'', json_dumps float_env micro_record)]"
    using t by (simp add: micro_record_def)
  from r p v x t b show ?thesis by simp
qed

subsection \<open>A line on which the parser raises another exception\<close>

lemma str_contains_set: "str_contains n h \<Longrightarrow> set n \<subseteq> set h"
  by (auto simp: str_contains_iff)

lemma not_space_bracket: "\<not> py_isspace CHR ''[''" "\<not> py_isspace CHR ''}''"
  by (simp_all add: py_isspace_def)

lemma strip_deep_line: "strip deep_line = deep_line"
  by (rule strip_clean) (simp_all add: deep_line_def not_space_bracket)

lemma strip_deep_text: "strip deep_text = deep_text"
  by (rule strip_clean) (simp_all add: deep_text_def deep_line_def not_space_bracket)

lemma split_deep_text: "split_nl deep_text = [deep_line, ''{}'']"
proof -
  have "newline \<notin> set deep_line" by (simp add: deep_line_def newline_def)
  then have "split_nl (deep_line @ newline # ''{}'') = deep_line # split_nl ''{}''"
    by (rule split_nl_line)
  then show ?thesis by (simp add: deep_text_def newline_def)
qed

lemma deep_line_differs: "''{}'' \<noteq> deep_line"
proof
  assume "''{}'' = deep_line"
  then have "length ''{}'' = length deep_line" by simp
  then show False by (simp add: deep_line_def)
qed

text \<open>
  C3 as stated fails on a line that makes \<open>json.loads\<close> raise something else than
  \<open>JSONDecodeError\<close>: on the text of a line of 1100 opening brackets followed by
  the line \<open>{}\<close>, the specification's parser drops the first line and keeps the
  record of the second, and the loop of the view leaves with the exception of the first,
  which the outer handler answers with 500.
\<close>

theorem recursion_error_aborts:
  "json_loads deep_env deep_line = Inl (OtherException ''maximum recursion depth exceeded'') \<and>
   json_loads deep_env ''{}'' = Inr (JObj []) \<and>
   nonblank (split_nl deep_text) = [deep_line, ''{}''] \<and>
   spec_parse deep_env deep_text = [JObj []] \<and>
   parse_ndjson deep_env deep_text =
     (Inl (OtherException ''maximum recursion depth exceeded''), []) \<and>
   fst (catch_all deep_env (process_content sample_cfg deep_env deep_text)) =
     error_response ''maximum recursion depth exceeded'' 500"
proof -
  have l1: "json_loads deep_env deep_line = Inl (OtherException ''maximum recursion depth exceeded'')"
    by (simp add: deep_env_def deep_loads_def)
  have l2: "json_loads deep_env ''{}'' = Inr (JObj [])"
    using deep_line_differs by (simp add: deep_env_def deep_loads_def sample_loads_def)
  have s2: "strip ''{}'' = ''{}''"
    by (simp add: strip_def lstrip_def rstrip_def py_isspace_def)
  have d0: "deep_line \<noteq> []" by (simp add: deep_line_def)
  have nb: "nonblank (split_nl deep_text) = [deep_line, ''{}'']"
    using d0 by (simp add: split_deep_text nonblank_def strip_deep_line s2)
  have sp: "spec_parse deep_env deep_text = [JObj []]"
    by (simp add: spec_parse_def nb parsed_of_def l1 l2)
  have pl: "parse_lines deep_env [deep_line, ''{}''] =
      (Inl (OtherException ''maximum recursion depth exceeded''), [])"
    using d0 by (simp add: strip_deep_line l1)
  then have pn: "parse_ndjson deep_env deep_text =
      (Inl (OtherException ''maximum recursion depth exceeded''), [])"
    by (simp add: parse_ndjson_def strip_deep_text split_deep_text)
  have np: "\<not> str_contains probe deep_text"
  proof
    assume "str_contains probe deep_text"
    then have "set probe \<subseteq> set deep_text" by (rule str_contains_set)
    moreover have "CHR ''c'' \<in> set probe" by (simp add: probe_def)
    ultimately have "CHR ''c'' \<in> set deep_text" by blast
    then show False by (simp add: deep_text_def deep_line_def newline_def)
  qed
  have x: "exc_str deep_env (OtherException ''maximum recursion depth exceeded'') =
      ''maximum recursion depth exceeded''"
    by (simp add: deep_env_def sample_env_def)
  have pc: "fst (catch_all deep_env (process_content sample_cfg deep_env deep_text)) =
     error_response ''maximum recursion depth exceeded'' 500"
    using np by (simp add: process_content_def pn catch_all_Inl x)
  from l1 l2 nb sp pn pc show ?thesis by simp
qed

end
